theory Spec2Isabelle
  imports Complex_Main "HOL-Library.Multiset" "HOL-Library.Product_Lexorder"
begin

section \<open>Floating-point values with NaN and infinities\<close>

text \<open>
  The analysis code of \<^verbatim>\<open>pns/analysis_utils.py\<close> works on numpy arrays of floats.
  A float is modelled as a real number, one of the two infinities, or NaN. Finite values
  are computed exactly, except where rounding decides the branch or the special value
  that results: the operations of \<^verbatim>\<open>log_subtract\<close> and of the assertion of
  \<^verbatim>\<open>run_ci_bootstrap\<close> round by an explicit rounding function. The sign of zero is
  not part of the model. Comparisons are the IEEE ones (every comparison with NaN is
  false), and the special values follow numpy: NaN is absorbing, \<open>inf - inf\<close> and
  \<open>0 * inf\<close> are NaN, \<open>log 0 = -inf\<close> and the log of a negative number is NaN (numpy
  warns, it does not raise).
\<close>

datatype fl = NaN | NInf | PInf | Fin real

fun isnan :: "fl \<Rightarrow> bool" where
  "isnan NaN = True"
| "isnan _ = False"

fun isfinite :: "fl \<Rightarrow> bool" where
  "isfinite (Fin _) = True"
| "isfinite _ = False"

fun fneg :: "fl \<Rightarrow> fl" where
  "fneg NaN = NaN"
| "fneg NInf = PInf"
| "fneg PInf = NInf"
| "fneg (Fin x) = Fin (- x)"

fun fadd :: "fl \<Rightarrow> fl \<Rightarrow> fl" where
  "fadd NaN _ = NaN"
| "fadd _ NaN = NaN"
| "fadd PInf NInf = NaN"
| "fadd NInf PInf = NaN"
| "fadd PInf _ = PInf"
| "fadd _ PInf = PInf"
| "fadd NInf _ = NInf"
| "fadd _ NInf = NInf"
| "fadd (Fin a) (Fin b) = Fin (a + b)"

definition fsub :: "fl \<Rightarrow> fl \<Rightarrow> fl" where
  "fsub a b = fadd a (fneg b)"

text \<open>The sign of a non-NaN value: \<open>-1\<close>, \<open>0\<close> or \<open>1\<close>.\<close>

fun fsgn :: "fl \<Rightarrow> int" where
  "fsgn NaN = 0"
| "fsgn NInf = - 1"
| "fsgn PInf = 1"
| "fsgn (Fin x) = (if x < 0 then - 1 else if x = 0 then 0 else 1)"

definition inf_of_sign :: "int \<Rightarrow> fl" where
  "inf_of_sign s = (if s = 0 then NaN else if 0 < s then PInf else NInf)"

fun fmul :: "fl \<Rightarrow> fl \<Rightarrow> fl" where
  "fmul NaN _ = NaN"
| "fmul _ NaN = NaN"
| "fmul (Fin a) (Fin b) = Fin (a * b)"
| "fmul a b = inf_of_sign (fsgn a * fsgn b)"

fun fdiv :: "fl \<Rightarrow> fl \<Rightarrow> fl" where
  "fdiv NaN _ = NaN"
| "fdiv _ NaN = NaN"
| "fdiv (Fin a) (Fin b) = (if b = 0 then inf_of_sign (fsgn (Fin a)) else Fin (a / b))"
| "fdiv (Fin a) _ = Fin 0"
| "fdiv a (Fin b) = inf_of_sign (fsgn a * (if b < 0 then - 1 else 1))"
| "fdiv _ _ = NaN"

text \<open>\<^verbatim>\<open>x ** -1\<close> on a float array.\<close>

definition fpow_m1 :: "fl \<Rightarrow> fl" where
  "fpow_m1 x = fdiv (Fin 1) x"

fun flt :: "fl \<Rightarrow> fl \<Rightarrow> bool" where
  "flt NaN _ = False"
| "flt _ NaN = False"
| "flt _ NInf = False"
| "flt NInf _ = True"
| "flt PInf _ = False"
| "flt _ PInf = True"
| "flt (Fin a) (Fin b) = (a < b)"

fun fle :: "fl \<Rightarrow> fl \<Rightarrow> bool" where
  "fle NaN _ = False"
| "fle _ NaN = False"
| "fle NInf _ = True"
| "fle _ PInf = True"
| "fle _ NInf = False"
| "fle PInf _ = False"
| "fle (Fin a) (Fin b) = (a \<le> b)"

definition fgt :: "fl \<Rightarrow> fl \<Rightarrow> bool" where
  "fgt a b = flt b a"

definition fge :: "fl \<Rightarrow> fl \<Rightarrow> bool" where
  "fge a b = fle b a"

fun np_log :: "fl \<Rightarrow> fl" where
  "np_log NaN = NaN"
| "np_log NInf = NaN"
| "np_log PInf = PInf"
| "np_log (Fin x) = (if x < 0 then NaN else if x = 0 then NInf else Fin (ln x))"

fun np_exp :: "fl \<Rightarrow> fl" where
  "np_exp NaN = NaN"
| "np_exp NInf = Fin 0"
| "np_exp PInf = PInf"
| "np_exp (Fin x) = Fin (exp x)"

text \<open>
  Where rounding decides which special value or which branch results, it is explicit:
  \<open>rnd\<close> is the rounding of a real result to a float (an infinity on overflow), and
  \<open>fround rnd\<close> rounds a finite value and leaves NaN and the infinities alone. The
  IEEE rounding to the nearest double is monotone and leaves \<open>0\<close> and \<open>1\<close> as they
  are; \<open>rounding rnd\<close> says this much of \<open>rnd\<close>. The exact arithmetic is the rounding
  \<open>Fin\<close>.
\<close>

definition fround :: "(real \<Rightarrow> fl) \<Rightarrow> fl \<Rightarrow> fl" where
  "fround rnd x = (case x of Fin r \<Rightarrow> rnd r | _ \<Rightarrow> x)"

definition rounding :: "(real \<Rightarrow> fl) \<Rightarrow> bool" where
  "rounding rnd \<longleftrightarrow> (\<forall>x y. x \<le> y \<longrightarrow> fle (rnd x) (rnd y)) \<and> rnd 0 = Fin 0 \<and> rnd 1 = Fin 1"

text \<open>\<^verbatim>\<open>np.sum\<close> of a one-dimensional array.\<close>

definition np_sum :: "fl list \<Rightarrow> fl" where
  "np_sum xs = foldl fadd (Fin 0) xs"

text \<open>
  \<^verbatim>\<open>np.cumsum\<close>: the first output is the first input, every later output adds the next
  input to the previous output.
\<close>

fun cumsum_from :: "fl \<Rightarrow> fl list \<Rightarrow> fl list" where
  "cumsum_from acc [] = []"
| "cumsum_from acc (x # xs) = fadd acc x # cumsum_from (fadd acc x) xs"

fun np_cumsum :: "fl list \<Rightarrow> fl list" where
  "np_cumsum [] = []"
| "np_cumsum (x # xs) = x # cumsum_from x xs"

section \<open>Errors\<close>

text \<open>
  Every exception the code can raise is a value. The assertion messages of the source
  print the value they complain about; the payload of an assertion is what is printed.
  \<^verbatim>\<open>str\<close> of a numpy array prints every entry of an array of at most 1000 entries, and
  of a longer one the first three and the last three entries with an ellipsis between
  them.
\<close>

datatype printed_array = Printed "fl list" | Abbreviated "fl list" "fl list"

definition np_array_str :: "fl list \<Rightarrow> printed_array" where
  "np_array_str arr =
     (if 1000 < length arr then Abbreviated (take 3 arr) (drop (length arr - 3) arr)
      else Printed arr)"

datatype assertion =
    Logx_nlive_contains_zeros printed_array
  | Dynamic_run_without_min_max
  | Thread_without_start_or_end
  | Nlive_contains_zeros printed_array
  | N_simulate_not_big_enough int fl

datatype error =
    AssertionError assertion
  | KeyError string
  | IndexError
  | ValueError
  | TypeError

section \<open>The random source\<close>

text \<open>
  The code draws from numpy's global generator. The generator is modelled as the infinite
  sequence of raw draws still to come; a call takes as many as it needs from the front.
  \<^verbatim>\<open>np.random.random(n)\<close> gives \<open>n\<close> floats in \<open>[0, 1)\<close>, and
  \<^verbatim>\<open>np.random.randint(low, high, size)\<close> gives \<open>size\<close> integers in \<open>[low, high)\<close>;
  it raises \<^verbatim>\<open>ValueError\<close> for a negative size and for \<open>low >= high\<close>.
\<close>

type_synonym rng = "nat \<Rightarrow> nat"

definition rng_take :: "nat \<Rightarrow> rng \<Rightarrow> nat list \<times> rng" where
  "rng_take n g = (map g [0..<n], \<lambda>i. g (i + n))"

definition uniform_of_raw :: "nat \<Rightarrow> fl" where
  "uniform_of_raw k = Fin (real (k mod 2 ^ 53) / 2 ^ 53)"

definition np_random_random :: "nat \<Rightarrow> rng \<Rightarrow> fl list \<times> rng" where
  "np_random_random n g = (case rng_take n g of (ks, g') \<Rightarrow> (map uniform_of_raw ks, g'))"

definition np_random_randint :: "int \<Rightarrow> int \<Rightarrow> int \<Rightarrow> rng \<Rightarrow> error + (int list \<times> rng)" where
  "np_random_randint low high n g =
     (if n < 0 \<or> high \<le> low then Inl ValueError
      else case rng_take (nat n) g of
             (ks, g') \<Rightarrow> Inr (map (\<lambda>k. low + int (k mod nat (high - low))) ks, g'))"

section \<open>Prior volumes: \<^verbatim>\<open>get_logx\<close>\<close>

text \<open>
  \<^verbatim>\<open>ndarray.min()\<close>: raises \<^verbatim>\<open>ValueError\<close> on an empty array and gives NaN as soon as one
  entry is NaN.
\<close>

definition fmin2 :: "fl \<Rightarrow> fl \<Rightarrow> fl" where
  "fmin2 a b = (if isnan a \<or> isnan b then NaN else if flt b a then b else a)"

definition np_min :: "fl list \<Rightarrow> error + fl" where
  "np_min xs = (case xs of [] \<Rightarrow> Inl ValueError | x # ys \<Rightarrow> Inr (foldl fmin2 x ys))"

text \<open>
  \<^verbatim>\<open>get_logx(nlive_array, simulate)\<close>. The assertion on the array type is the type of
  the argument here. In the deterministic mode no random number is drawn.
\<close>

definition get_logx :: "fl list \<Rightarrow> bool \<Rightarrow> rng \<Rightarrow> error + (fl list \<times> rng)" where
  "get_logx nlive_array simulate g =
     (case np_min nlive_array of
        Inl e \<Rightarrow> Inl e
      | Inr m \<Rightarrow>
          if \<not> fgt m (Fin 0) then Inl (AssertionError (Logx_nlive_contains_zeros (np_array_str nlive_array)))
          else if simulate then
            (case np_random_random (length nlive_array) g of
               (us, g') \<Rightarrow> Inr (np_cumsum (map2 (\<lambda>u n. fdiv (np_log u) n) us nlive_array), g'))
          else Inr (np_cumsum (map (\<lambda>n. fmul (Fin (- 1)) (fpow_m1 n)) nlive_array), g))"

section \<open>Log-space arithmetic\<close>

text \<open>
  \<^verbatim>\<open>log_subtract(loga, logb)\<close> of \<^verbatim>\<open>pns/maths_functions.py\<close>. The assertion
  \<^verbatim>\<open>loga >= logb\<close> is commented out in the source, so the body is the return
  statement alone. Each of its five operations rounds: for \<open>logb\<close> a little above
  \<open>loga\<close> the exponential rounds to \<open>1\<close> and the result is \<open>-inf\<close>, not NaN.
\<close>

definition log_subtract :: "(real \<Rightarrow> fl) \<Rightarrow> fl \<Rightarrow> fl \<Rightarrow> error + fl" where
  "log_subtract rnd loga logb =
     Inr (fround rnd (fadd loga
            (fround rnd (np_log
               (fround rnd (fsub (Fin 1)
                  (fround rnd (np_exp (fround rnd (fsub logb loga))))))))))"

text \<open>The first error of a list of results, or all the values.\<close>

fun collect :: "(error + 'a) list \<Rightarrow> error + 'a list" where
  "collect [] = Inr []"
| "collect (Inl e # rs) = Inl e"
| "collect (Inr x # rs) = (case collect rs of Inl e \<Rightarrow> Inl e | Inr xs \<Rightarrow> Inr (x # xs))"

text \<open>\<^verbatim>\<open>log_subtract\<close> called on two arrays of one length works elementwise.\<close>

definition log_subtract_array ::
  "(real \<Rightarrow> fl) \<Rightarrow> fl list \<Rightarrow> fl list \<Rightarrow> error + fl list" where
  "log_subtract_array rnd as bs = collect (map2 (log_subtract rnd) as bs)"

definition fmax2 :: "fl \<Rightarrow> fl \<Rightarrow> fl" where
  "fmax2 a b = (if isnan a \<or> isnan b then NaN else if flt a b then b else a)"

definition np_amax :: "fl list \<Rightarrow> error + fl" where
  "np_amax xs = (case xs of [] \<Rightarrow> Inl ValueError | x # ys \<Rightarrow> Inr (foldl fmax2 x ys))"

text \<open>
  \<^verbatim>\<open>scipy.misc.logsumexp\<close> of a list: the maximum is taken out (zero when it is not
  finite), the exponentials are summed, and the maximum is added back to the log.
\<close>

definition logsumexp :: "fl list \<Rightarrow> error + fl" where
  "logsumexp a =
     (case np_amax a of
        Inl e \<Rightarrow> Inl e
      | Inr m \<Rightarrow>
          let a_max = (if isfinite m then m else Fin 0)
          in Inr (fadd (np_log (np_sum (map (\<lambda>x. np_exp (fsub x a_max)) a))) a_max))"

section \<open>Importance weights: \<^verbatim>\<open>get_logw\<close>\<close>

text \<open>
  \<^verbatim>\<open>logx_inc_start[1:] = get_logx(...)\<close> assigns to a slice of length \<open>N\<close>: numpy
  broadcasts a one-element array and raises \<^verbatim>\<open>ValueError\<close> for any other length
  mismatch. \<^verbatim>\<open>logw[0]\<close> and \<^verbatim>\<open>logw[-2]\<close> raise \<^verbatim>\<open>IndexError\<close> on arrays that are too
  short.
\<close>

definition get_logw :: "(real \<Rightarrow> fl) \<Rightarrow> fl list \<Rightarrow> fl list \<Rightarrow> bool \<Rightarrow> rng \<Rightarrow> error + (fl list \<times> rng)" where
  "get_logw rnd logl nlive_array simulate g =
     (case get_logx nlive_array simulate g of
        Inl e \<Rightarrow> Inl e
      | Inr (logx, g') \<Rightarrow>
         (let N = length logl in
          if length logx \<noteq> N \<and> length logx \<noteq> 1 then Inl ValueError
          else
           (let logx_inc_start =
                  Fin 0 # (if length logx = N then logx else replicate N (logx ! 0))
            in (case log_subtract_array rnd (take (length logx_inc_start - 2) logx_inc_start)
                                        (drop 2 logx_inc_start) of
                  Inl e \<Rightarrow> Inl e
                | Inr ls \<Rightarrow>
                   (let logw1 = ls @ drop (length ls) (replicate N (Fin 0));
                        logw2 = map (\<lambda>w. fsub w (np_log (Fin 2))) logw1
                    in if N = 0 then Inl IndexError
                       else
                        (case log_subtract rnd (logx_inc_start ! 0) (logx_inc_start ! 1) of
                           Inl e \<Rightarrow> Inl e
                         | Inr first \<Rightarrow>
                            (case logsumexp [logw2 ! 0, fadd (np_log (Fin (1 / 2))) first] of
                               Inl e \<Rightarrow> Inl e
                             | Inr lse \<Rightarrow>
                                (let logw3 = logw2[0 := lse]
                                 in if N < 2 then Inl IndexError
                                    else
                                     (let logw4 = logw3[N - 1 := logw3 ! (N - 2)]
                                      in Inr (map2 fadd logw4 logl, g'))))))))))"

section \<open>Runs, threads and interval records\<close>

text \<open>
  A thread is a two-dimensional array whose columns are \<open>logl, r, logx, theta...\<close>
  (the code reads columns \<open>0\<close>, \<open>1\<close> and \<open>3:\<close>), or \<^verbatim>\<open>None\<close>. A row of
  \<^verbatim>\<open>thread_logl_min_max\<close> is \<open>(r[0], r[1], r[2])\<close>: the log-likelihood at which the
  thread starts, the one at which it ends, and the number of live points it adds.
  A run is a dictionary; the keys \<^verbatim>\<open>nlive_array\<close> and \<^verbatim>\<open>thread_logl_min_max\<close> may be
  missing, which is \<open>None\<close> here.
\<close>

record sample_row =
  row_logl :: fl
  row_r :: fl
  row_logx :: fl
  row_theta :: "fl list"

type_synonym table = "sample_row list"

type_synonym logl_mm = "fl \<times> fl \<times> fl"

definition r0 :: "logl_mm \<Rightarrow> fl" where
  "r0 rec = fst rec"

definition r1 :: "logl_mm \<Rightarrow> fl" where
  "r1 rec = fst (snd rec)"

definition r2 :: "logl_mm \<Rightarrow> fl" where
  "r2 rec = snd (snd rec)"

record settings =
  dynamic_goal :: "int option"
  nlive :: int
  nlive_1 :: int

record ns_run =
  threads :: "table option list"
  thread_logl_min_max :: "logl_mm list option"
  nlive_array :: "fl list option"
  settings :: settings

section \<open>Live counts: \<^verbatim>\<open>get_nlive\<close>\<close>

text \<open>\<^verbatim>\<open>arr[np.where(sel)] += v\<close>\<close>

definition add_where :: "bool list \<Rightarrow> fl \<Rightarrow> fl list \<Rightarrow> fl list" where
  "add_where sel v arr = map2 (\<lambda>m x. if m then fadd x v else x) sel arr"

text \<open>
  \<^verbatim>\<open>for i in range(1, nlive): arr[-i] = i\<close>; the negative index is out of range when
  \<open>i\<close> is larger than the array.
\<close>

fun ramp_down :: "int list \<Rightarrow> fl list \<Rightarrow> error + fl list" where
  "ramp_down [] arr = Inr arr"
| "ramp_down (i # is) arr =
     (if 1 \<le> i \<and> i \<le> int (length arr)
      then ramp_down is (arr[length arr - nat i := Fin (of_int i)])
      else Inl IndexError)"

text \<open>The three passes over the interval records of a dynamic run, and the assertion
  that follows them.\<close>

definition nlive_dynamic :: "logl_mm list \<Rightarrow> fl list \<Rightarrow> error + fl list" where
  "nlive_dynamic lmm_ar logl =
     (let arr0 = replicate (length logl) (Fin 0);
          arr1 = foldl (\<lambda>arr rec. add_where (map (\<lambda>l. fge (r1 rec) l) logl) (r2 rec) arr)
                   arr0 (filter (\<lambda>rec. isnan (r0 rec)) lmm_ar);
          arr2 = foldl (\<lambda>arr rec. add_where (map (\<lambda>l. fgt l (r0 rec)) logl) (r2 rec) arr)
                   arr1 (filter (\<lambda>rec. isnan (r1 rec)) lmm_ar);
          arr3 = foldl (\<lambda>arr rec. add_where
                          (map (\<lambda>l. fge (r1 rec) l \<and> fgt l (r0 rec)) logl) (r2 rec) arr)
                   arr2 (filter (\<lambda>rec. \<not> isnan (r0 rec) \<and> \<not> isnan (r1 rec)) lmm_ar)
      in if length (filter (\<lambda>rec. isnan (r0 rec) \<and> isnan (r1 rec)) lmm_ar) = 0
         then Inr arr3
         else Inl (AssertionError Thread_without_start_or_end))"

text \<open>The \<^verbatim>\<open>if / elif / else\<close> of \<^verbatim>\<open>get_nlive\<close>, which builds the array.\<close>

definition nlive_reconstruct :: "ns_run \<Rightarrow> fl list \<Rightarrow> error + fl list" where
  "nlive_reconstruct run_dict logl =
     (case nlive_array run_dict of
        Some arr \<Rightarrow> Inr arr
      | None \<Rightarrow>
          (case thread_logl_min_max run_dict of
             None \<Rightarrow>
               if dynamic_goal (settings run_dict) \<noteq> None
               then Inl (AssertionError Dynamic_run_without_min_max)
               else ramp_down [1 .. nlive (settings run_dict) - 1]
                      (replicate (length logl)
                         (fadd (Fin 0) (Fin (of_int (nlive (settings run_dict))))))
           | Some lmm_ar \<Rightarrow> nlive_dynamic lmm_ar logl))"

text \<open>\<^verbatim>\<open>get_nlive(run_dict, logl)\<close>: the array, then the assertion that its minimum is
  positive.\<close>

definition get_nlive :: "ns_run \<Rightarrow> fl list \<Rightarrow> error + fl list" where
  "get_nlive run_dict logl =
     (case nlive_reconstruct run_dict logl of
        Inl e \<Rightarrow> Inl e
      | Inr arr \<Rightarrow>
          (case np_min arr of
             Inl e \<Rightarrow> Inl e
           | Inr m \<Rightarrow>
               if fgt m (Fin 0) then Inr arr
               else Inl (AssertionError (Nlive_contains_zeros (np_array_str arr)))))"

section \<open>Merging threads: \<^verbatim>\<open>merge_lrxp\<close>\<close>

text \<open>
  \<^verbatim>\<open>np.vstack\<close> raises \<^verbatim>\<open>ValueError\<close> when the two arrays differ in their number of
  columns. The width of a table is read off its first row; an array without rows has
  no width here.
\<close>

definition table_width :: "table \<Rightarrow> nat option" where
  "table_width t = (case t of [] \<Rightarrow> None | x # _ \<Rightarrow> Some (3 + length (row_theta x)))"

definition np_vstack :: "table \<Rightarrow> table \<Rightarrow> error + table" where
  "np_vstack a b =
     (case (table_width a, table_width b) of
        (Some m, Some n) \<Rightarrow> if m = n then Inr (a @ b) else Inl ValueError
      | _ \<Rightarrow> Inr (a @ b))"

text \<open>
  \<^verbatim>\<open>np.argsort\<close> gives the indices that sort the keys ascending, NaN last. numpy
  does not promise an order among equal keys; the model takes the stable one.
\<close>

fun sort_rank :: "fl \<Rightarrow> nat \<times> real" where
  "sort_rank NInf = (0, 0)"
| "sort_rank (Fin x) = (1, x)"
| "sort_rank PInf = (2, 0)"
| "sort_rank NaN = (3, 0)"

definition np_argsort :: "fl list \<Rightarrow> nat list" where
  "np_argsort ks = sort_key (\<lambda>i. sort_rank (ks ! i)) [0..<length ks]"

text \<open>The loop of \<^verbatim>\<open>merge_lrxp\<close>, with \<^verbatim>\<open>output\<close> as its state.\<close>

fun merge_loop :: "table option \<Rightarrow> table option list \<Rightarrow> error + table option" where
  "merge_loop output [] = Inr output"
| "merge_loop output (None # rest) = merge_loop output rest"
| "merge_loop None (Some array # rest) = merge_loop (Some array) rest"
| "merge_loop (Some out) (Some array # rest) =
     (case np_vstack out array of
        Inl e \<Rightarrow> Inl e
      | Inr v \<Rightarrow> merge_loop (Some v) rest)"

definition merge_lrxp :: "table option list \<Rightarrow> error + table option" where
  "merge_lrxp array_list =
     (case merge_loop None array_list of
        Inl e \<Rightarrow> Inl e
      | Inr None \<Rightarrow> Inr None
      | Inr (Some out) \<Rightarrow> Inr (Some (map (\<lambda>i. out ! i) (np_argsort (map row_logl out)))))"

section \<open>Estimators\<close>

text \<open>
  An estimator is an object with a method
  \<^verbatim>\<open>estimator(logw, logl, r, theta)\<close> that returns a number. The estimators themselves
  are not part of the analysed code: an estimator is a function parameter.
\<close>

type_synonym estimator = "fl list \<Rightarrow> fl list \<Rightarrow> fl list \<Rightarrow> fl list list \<Rightarrow> fl"

definition get_estimators :: "table \<Rightarrow> fl list \<Rightarrow> estimator list \<Rightarrow> fl list" where
  "get_estimators lrxp logw estimator_list =
     map (\<lambda>f. f logw (map row_logl lrxp) (map row_r lrxp) (map row_theta lrxp)) estimator_list"

text \<open>
  \<^verbatim>\<open>run_estimators\<close>: indexing the \<^verbatim>\<open>None\<close> that \<^verbatim>\<open>merge_lrxp\<close> returns for a run
  without points raises \<^verbatim>\<open>TypeError\<close>.
\<close>

definition run_estimators ::
  "(real \<Rightarrow> fl) \<Rightarrow> ns_run \<Rightarrow> estimator list \<Rightarrow> bool \<Rightarrow> rng \<Rightarrow> error + (fl list \<times> rng)" where
  "run_estimators rnd run estimator_list simulate g =
     (case merge_lrxp (threads run) of
        Inl e \<Rightarrow> Inl e
      | Inr None \<Rightarrow> Inl TypeError
      | Inr (Some lrxp) \<Rightarrow>
         (case get_nlive run (map row_logl lrxp) of
            Inl e \<Rightarrow> Inl e
          | Inr nl \<Rightarrow>
             (case get_logw rnd (map row_logl lrxp) nl simulate g of
                Inl e \<Rightarrow> Inl e
              | Inr (logw, g') \<Rightarrow> Inr (get_estimators lrxp logw estimator_list, g'))))"

section \<open>Bootstrap resampling of threads\<close>

text \<open>Indexing with one index, negative indices counting from the end, and with a
  list of indices.\<close>

definition py_index :: "'a list \<Rightarrow> int \<Rightarrow> error + 'a" where
  "py_index xs i =
     (if 0 \<le> i \<and> i < int (length xs) then Inr (xs ! nat i)
      else if i < 0 \<and> - int (length xs) \<le> i then Inr (xs ! nat (int (length xs) + i))
      else Inl IndexError)"

definition py_index_list :: "'a list \<Rightarrow> int list \<Rightarrow> error + 'a list" where
  "py_index_list xs inds = collect (map (py_index xs) inds)"

text \<open>The index vector of \<^verbatim>\<open>bootstrap_resample_run\<close>.\<close>

definition bootstrap_inds :: "ns_run \<Rightarrow> bool \<Rightarrow> rng \<Rightarrow> error + (int list \<times> rng)" where
  "bootstrap_inds run sample_ninit_sep g =
     (let n_threads = int (length (threads run)) in
      if dynamic_goal (settings run) \<noteq> None \<and> sample_ninit_sep then
        (let ninit = nlive_1 (settings run) in
         case np_random_randint 0 ninit ninit g of
           Inl e \<Rightarrow> Inl e
         | Inr (inds1, g1) \<Rightarrow>
            (case np_random_randint ninit n_threads (n_threads - ninit) g1 of
               Inl e \<Rightarrow> Inl e
             | Inr (inds2, g2) \<Rightarrow> Inr (inds1 @ inds2, g2)))
      else np_random_randint 0 n_threads n_threads g)"

text \<open>
  \<^verbatim>\<open>bootstrap_resample_run(ns_run, sample_ninit_sep)\<close>. The new dictionary has the three
  keys \<^verbatim>\<open>thread_logl_min_max\<close>, \<^verbatim>\<open>settings\<close> and \<^verbatim>\<open>threads\<close> only.
\<close>

definition bootstrap_resample_run :: "ns_run \<Rightarrow> bool \<Rightarrow> rng \<Rightarrow> error + (ns_run \<times> rng)" where
  "bootstrap_resample_run run sample_ninit_sep g =
     (case bootstrap_inds run sample_ninit_sep g of
        Inl e \<Rightarrow> Inl e
      | Inr (inds, g') \<Rightarrow>
         (case py_index_list (threads run) inds of
            Inl e \<Rightarrow> Inl e
          | Inr threads_temp \<Rightarrow>
             (case thread_logl_min_max run of
                None \<Rightarrow> Inl (KeyError ''thread_logl_min_max'')
              | Some lmm \<Rightarrow>
                 (case py_index_list lmm inds of
                    Inl e \<Rightarrow> Inl e
                  | Inr logl_min_max_temp \<Rightarrow>
                      Inr (\<lparr>threads = threads_temp,
                            thread_logl_min_max = Some logl_min_max_temp,
                            nlive_array = None,
                            settings = settings run\<rparr>, g')))))"

section \<open>Bootstrap standard deviations and confidence intervals\<close>

text \<open>\<^verbatim>\<open>bs_values[:, i] = v\<close> on a matrix held as its list of rows.\<close>

definition set_col :: "fl list list \<Rightarrow> nat \<Rightarrow> fl list \<Rightarrow> fl list list" where
  "set_col m i v = map2 (\<lambda>row x. row[i := x]) m v"

text \<open>The loop that \<^verbatim>\<open>run_std_bootstrap\<close> and \<^verbatim>\<open>run_ci_bootstrap\<close> share: one resampled
  run and one column of estimates for each index.\<close>

fun bootstrap_loop ::
  "(real \<Rightarrow> fl) \<Rightarrow> ns_run \<Rightarrow> estimator list \<Rightarrow> nat list \<Rightarrow> fl list list \<Rightarrow> rng \<Rightarrow> error + (fl list list \<times> rng)"
where
  "bootstrap_loop rnd run estimator_list [] bs_values g = Inr (bs_values, g)"
| "bootstrap_loop rnd run estimator_list (i # is) bs_values g =
     (case bootstrap_resample_run run True g of
        Inl e \<Rightarrow> Inl e
      | Inr (ns_run_temp, g1) \<Rightarrow>
         (case run_estimators rnd ns_run_temp estimator_list False g1 of
            Inl e \<Rightarrow> Inl e
          | Inr (v, g2) \<Rightarrow> bootstrap_loop rnd run estimator_list is (set_col bs_values i v) g2))"

fun np_sqrt :: "fl \<Rightarrow> fl" where
  "np_sqrt NaN = NaN"
| "np_sqrt NInf = NaN"
| "np_sqrt PInf = PInf"
| "np_sqrt (Fin x) = (if x < 0 then NaN else Fin (sqrt x))"

text \<open>\<^verbatim>\<open>np.std(xs, ddof=1)\<close>\<close>

definition np_std_ddof1 :: "fl list \<Rightarrow> fl" where
  "np_std_ddof1 xs =
     (let n = Fin (real (length xs));
          mean = fdiv (np_sum xs) n;
          sq = map (\<lambda>x. fmul (fsub x mean) (fsub x mean)) xs
      in np_sqrt (fdiv (np_sum sq) (fsub n (Fin 1))))"

text \<open>\<^verbatim>\<open>np.zeros((k, n))\<close> raises \<^verbatim>\<open>ValueError\<close> for a negative dimension.\<close>

definition np_zeros2 :: "nat \<Rightarrow> int \<Rightarrow> error + fl list list" where
  "np_zeros2 k n = (if n < 0 then Inl ValueError else Inr (replicate k (replicate (nat n) (Fin 0))))"

definition run_std_bootstrap ::
  "(real \<Rightarrow> fl) \<Rightarrow> ns_run \<Rightarrow> estimator list \<Rightarrow> int \<Rightarrow> rng \<Rightarrow> error + (fl list \<times> rng)" where
  "run_std_bootstrap rnd run estimator_list n_simulate g =
     (case np_zeros2 (length estimator_list) n_simulate of
        Inl e \<Rightarrow> Inl e
      | Inr bs0 \<Rightarrow>
         (case bootstrap_loop rnd run estimator_list [0..<nat n_simulate] bs0 g of
            Inl e \<Rightarrow> Inl e
          | Inr (bs_values, g') \<Rightarrow> Inr (map np_std_ddof1 bs_values, g')))"

text \<open>The builtin \<^verbatim>\<open>min(a, b)\<close>: \<open>b\<close> when \<open>b < a\<close>, else \<open>a\<close>.\<close>

definition py_min :: "fl \<Rightarrow> fl \<Rightarrow> fl" where
  "py_min a b = (if flt b a then b else a)"

text \<open>\<^verbatim>\<open>np.sort\<close> of a one-dimensional array: ascending, NaN last.\<close>

definition np_sort :: "fl list \<Rightarrow> fl list" where
  "np_sort xs = sort_key sort_rank xs"

text \<open>
  \<^verbatim>\<open>np.interp(x, xp, fp)\<close> for increasing \<open>xp\<close>: the first value left of the grid, the
  last value right of it, and in between the line through the two neighbouring points.
\<close>

fun interp_walk :: "fl \<Rightarrow> fl list \<Rightarrow> fl list \<Rightarrow> fl" where
  "interp_walk x (x0 # x1 # xs) (f0 # f1 # fs) =
     (if x = x0 then f0
      else if flt x x1 then fadd (fmul (fdiv (fsub f1 f0) (fsub x1 x0)) (fsub x x0)) f0
      else interp_walk x (x1 # xs) (f1 # fs))"
| "interp_walk x [x0] [f0] = f0"
| "interp_walk x _ _ = NaN"

definition np_interp :: "fl \<Rightarrow> fl list \<Rightarrow> fl list \<Rightarrow> error + fl" where
  "np_interp x xp fp =
     (if xp = [] \<or> length xp \<noteq> length fp then Inl ValueError
      else if isnan x then Inr x
      else if flt x (xp ! 0) then Inr (fp ! 0)
      else if fgt x (last xp) then Inr (last fp)
      else Inr (interp_walk x xp fp))"

text \<open>
  \<^verbatim>\<open>run_ci_bootstrap\<close>. The difference \<^verbatim>\<open>1. - cred_int\<close> and the product with
  \<^verbatim>\<open>n_simulate\<close> are rounded, which decides the assertion for products next to \<open>1\<close>;
  the integer \<^verbatim>\<open>n_simulate\<close> is a float without rounding.
\<close>

definition run_ci_bootstrap ::
  "(real \<Rightarrow> fl) \<Rightarrow> ns_run \<Rightarrow> estimator list \<Rightarrow> int \<Rightarrow> fl \<Rightarrow> rng \<Rightarrow> error + (fl list \<times> rng)" where
  "run_ci_bootstrap rnd run estimator_list n_simulate cred_int g =
     (if \<not> fgt (fround rnd (fmul (py_min cred_int (fround rnd (fsub (Fin 1) cred_int)))
                                  (Fin (of_int n_simulate)))) (Fin 1)
      then Inl (AssertionError (N_simulate_not_big_enough n_simulate cred_int))
      else
       (case np_zeros2 (length estimator_list) n_simulate of
          Inl e \<Rightarrow> Inl e
        | Inr bs0 \<Rightarrow>
           (case bootstrap_loop rnd run estimator_list [0..<nat n_simulate] bs0 g of
              Inl e \<Rightarrow> Inl e
            | Inr (bs_values, g1) \<Rightarrow>
               (case run_estimators rnd run estimator_list False g1 of
                  Inl e \<Rightarrow> Inl e
                | Inr (expected_estimators, g2) \<Rightarrow>
                   (let cdf = map (\<lambda>j. fdiv (fadd (Fin (real j)) (Fin (1 / 2)))
                                          (Fin (real (nat n_simulate))))
                                [0..<nat n_simulate];
                        ci0 = map (\<lambda>x. fmul x (Fin 2)) expected_estimators
                    in (case collect (map (\<lambda>i. np_interp (fround rnd (fsub (Fin 1) cred_int))
                                                   cdf (np_sort (bs_values ! i)))
                                          [0..<length ci0]) of
                          Inl e \<Rightarrow> Inl e
                        | Inr qs \<Rightarrow> Inr (map2 fsub ci0 qs, g2)))))))"

section \<open>The live count as the specification states it\<close>

text \<open>
  An interval record contains a log-likelihood \<open>l\<close>: a record without a start (NaN) when
  \<open>l \<le> logl_max\<close>, a record without an end when \<open>l > logl_min\<close>, and a bounded record
  when \<open>logl_min < l \<le> logl_max\<close>. The live count at \<open>l\<close> is the sum of the
  multiplicities of the records that contain \<open>l\<close>.
\<close>

definition record_contains :: "logl_mm \<Rightarrow> fl \<Rightarrow> bool" where
  "record_contains rec l =
     (if isnan (r0 rec) then fle l (r1 rec)
      else if isnan (r1 rec) then fgt l (r0 rec)
      else flt (r0 rec) l \<and> fle l (r1 rec))"

definition live_count_spec :: "logl_mm list \<Rightarrow> fl \<Rightarrow> fl" where
  "live_count_spec lmm_ar l = np_sum (map r2 (filter (\<lambda>rec. record_contains rec l) lmm_ar))"

section \<open>The threads that take part in a merge\<close>

text \<open>The tables of the threads that are not \<^verbatim>\<open>None\<close>, in the order of the list.\<close>

fun present_tables :: "table option list \<Rightarrow> table list" where
  "present_tables [] = []"
| "present_tables (None # ts) = present_tables ts"
| "present_tables (Some t # ts) = t # present_tables ts"

section \<open>The weights as the specification states them\<close>

text \<open>
  The value of a call of \<^verbatim>\<open>log_subtract\<close> and of \<^verbatim>\<open>logsumexp\<close>. Over the augmented
  volumes \<open>X = [0, logx...]\<close>, sample \<open>i\<close> has the trapezium weight
  \<open>log_subtract(X[i], X[i+2]) - log 2\<close>; the first sample has the \<^verbatim>\<open>logsumexp\<close> of its
  trapezium weight and \<open>log 0.5 + log_subtract(X[0], X[1])\<close>; the last of \<open>N\<close> samples
  has the volume weight of sample \<open>N - 2\<close>. The weight of a sample is its volume weight
  plus its log-likelihood.
\<close>

definition log_subtract_value :: "(real \<Rightarrow> fl) \<Rightarrow> fl \<Rightarrow> fl \<Rightarrow> fl" where
  "log_subtract_value rnd a b = (case log_subtract rnd a b of Inr v \<Rightarrow> v | Inl e \<Rightarrow> NaN)"

definition logsumexp_value :: "fl list \<Rightarrow> fl" where
  "logsumexp_value xs = (case logsumexp xs of Inr v \<Rightarrow> v | Inl e \<Rightarrow> NaN)"

definition trapezium_weight :: "(real \<Rightarrow> fl) \<Rightarrow> fl list \<Rightarrow> nat \<Rightarrow> fl" where
  "trapezium_weight rnd X i = fsub (log_subtract_value rnd (X ! i) (X ! (i + 2))) (np_log (Fin 2))"

definition first_weight :: "(real \<Rightarrow> fl) \<Rightarrow> fl list \<Rightarrow> fl" where
  "first_weight rnd X =
     logsumexp_value [trapezium_weight rnd X 0,
                      fadd (np_log (Fin (1 / 2))) (log_subtract_value rnd (X ! 0) (X ! 1))]"

definition inner_weight :: "(real \<Rightarrow> fl) \<Rightarrow> fl list \<Rightarrow> nat \<Rightarrow> fl" where
  "inner_weight rnd X i = (if i = 0 then first_weight rnd X else trapezium_weight rnd X i)"

definition volume_weight :: "(real \<Rightarrow> fl) \<Rightarrow> fl list \<Rightarrow> nat \<Rightarrow> nat \<Rightarrow> fl" where
  "volume_weight rnd X N i = (if i = N - 1 then inner_weight rnd X (N - 2) else inner_weight rnd X i)"

definition logw_spec :: "(real \<Rightarrow> fl) \<Rightarrow> fl list \<Rightarrow> fl list \<Rightarrow> fl list" where
  "logw_spec rnd logl X =
     map (\<lambda>i. fadd (volume_weight rnd X (length logl) i) (logl ! i)) [0..<length logl]"

section \<open>The bootstrap replicates as the specification states them\<close>



section \<open>Properties of the float operations\<close>

lemma fadd_zero_left: "fadd (Fin 0) x = x"
  by (cases x) simp_all

lemma fadd_zero_right: "fadd x (Fin 0) = x"
  by (cases x) simp_all

lemma fadd_assoc: "fadd (fadd a b) c = fadd a (fadd b c)"
  by (cases a; cases b; cases c) simp_all

lemma fadd_commute: "fadd a b = fadd b a"
  by (cases a; cases b) simp_all

lemma foldl_fmin2_pos:
  "fgt (foldl fmin2 a ys) (Fin 0) \<longleftrightarrow> fgt a (Fin 0) \<and> (\<forall>y\<in>set ys. fgt y (Fin 0))"
proof (induction ys arbitrary: a)
  case Nil
  show ?case by simp
next
  case (Cons y ys)
  have "fgt (fmin2 a y) (Fin 0) \<longleftrightarrow> fgt a (Fin 0) \<and> fgt y (Fin 0)"
    by (cases a; cases y) (auto simp: fmin2_def fgt_def)
  with Cons show ?case by auto
qed

lemma np_min_pos:
  "(\<exists>m. np_min xs = Inr m \<and> fgt m (Fin 0)) \<longleftrightarrow> xs \<noteq> [] \<and> (\<forall>x\<in>set xs. fgt x (Fin 0))"
  by (cases xs) (auto simp: np_min_def foldl_fmin2_pos)

section \<open>Properties of \<^verbatim>\<open>get_logx\<close>\<close>

lemma length_cumsum_from: "length (cumsum_from a xs) = length xs"
  by (induction xs arbitrary: a) simp_all

lemma length_np_cumsum: "length (np_cumsum xs) = length xs"
  by (cases xs) (simp_all add: length_cumsum_from)

lemma cumsum_from_nth:
  "i < length xs \<Longrightarrow> cumsum_from a xs ! i = foldl fadd a (take (Suc i) xs)"
proof (induction xs arbitrary: a i)
  case Nil
  then show ?case by simp
next
  case (Cons x xs)
  then show ?case by (cases i) simp_all
qed

lemma np_cumsum_nth:
  assumes "i < length xs"
  shows "np_cumsum xs ! i = np_sum (take (Suc i) xs)"
proof (cases xs)
  case Nil
  with assms show ?thesis by simp
next
  case (Cons x ys)
  with assms show ?thesis
    by (cases i) (simp_all add: np_sum_def fadd_zero_left cumsum_from_nth)
qed

lemma np_cumsum_step:
  assumes "Suc i < length xs"
  shows "np_cumsum xs ! Suc i = fadd (np_cumsum xs ! i) (xs ! Suc i)"
proof -
  have "take (Suc (Suc i)) xs = take (Suc i) xs @ [xs ! Suc i]"
    using assms by (simp add: take_Suc_conv_app_nth)
  then show ?thesis
    using assms by (simp add: np_cumsum_nth np_sum_def)
qed

lemma foldl_fadd_finite:
  "\<forall>x\<in>set xs. \<exists>s. x = Fin s \<Longrightarrow> \<exists>t. foldl fadd (Fin a) xs = Fin t"
proof (induction xs arbitrary: a)
  case Nil
  show ?case by simp
next
  case (Cons x xs)
  then obtain s where "x = Fin s" by auto
  with Cons show ?case by simp
qed

lemma np_cumsum_nonincreasing:
  assumes fin: "\<forall>x\<in>set xs. \<exists>s\<le>0. x = Fin s" and i: "Suc i < length xs"
  shows "fle (np_cumsum xs ! Suc i) (np_cumsum xs ! i)"
proof -
  have "\<forall>x\<in>set (take (Suc i) xs). \<exists>s. x = Fin s"
    using fin by (meson in_set_takeD)
  then obtain t where t: "np_cumsum xs ! i = Fin t"
    using foldl_fadd_finite [of "take (Suc i) xs" 0] i
    by (auto simp: np_cumsum_nth np_sum_def)
  obtain s where s: "xs ! Suc i = Fin s" "s \<le> 0"
    using fin i by (metis nth_mem)
  show ?thesis
    using s t by (simp add: np_cumsum_step [OF i])
qed

lemma step_form:
  "fgt n (Fin 0) \<Longrightarrow> fmul (Fin (- 1)) (fpow_m1 n) = fdiv (Fin (- 1)) n"
  by (cases n) (simp_all add: fgt_def fpow_m1_def)

lemma step_nonpos:
  "fgt n (Fin 0) \<Longrightarrow> \<exists>s\<le>0. fdiv (Fin (- 1)) n = Fin s"
  by (cases n) (simp_all add: fgt_def divide_nonpos_pos)

lemma get_logx_deterministic:
  assumes "nl \<noteq> []" and pos: "\<forall>n\<in>set nl. fgt n (Fin 0)"
  shows "get_logx nl False g = Inr (np_cumsum (map (\<lambda>n. fdiv (Fin (- 1)) n) nl), g)"
proof -
  obtain m where m: "np_min nl = Inr m" "fgt m (Fin 0)"
    using assms np_min_pos [of nl] by blast
  have "map (\<lambda>n. fmul (Fin (- 1)) (fpow_m1 n)) nl = map (\<lambda>n. fdiv (Fin (- 1)) n) nl"
    using pos by (simp add: step_form)
  then have "np_cumsum (map (\<lambda>n. fmul (Fin (- 1)) (fpow_m1 n)) nl)
               = np_cumsum (map (\<lambda>n. fdiv (Fin (- 1)) n) nl)"
    by (rule arg_cong)
  with m show ?thesis
    by (simp add: get_logx_def)
qed

text \<open>
  Claim C3. For every non-empty, strictly positive live-count array, \<^verbatim>\<open>get_logx\<close> in
  deterministic mode returns, without drawing a random number, the array whose entry
  \<open>i\<close> is the sum of the decrements \<open>-1 / nlive[j]\<close> for \<open>j \<le> i\<close>, and every entry is
  at most the entry before it. For \<open>nlive = [5, 5, 5, 5, 5]\<close> the result is
  \<open>[-0.2, -0.4, -0.6, -0.8, -1.0]\<close>.
\<close>

theorem get_logx_prefix_sum_nonincreasing:
  "(nl \<noteq> [] \<and> (\<forall>n\<in>set nl. fgt n (Fin 0)) \<longrightarrow>
      (\<exists>logx. get_logx nl False g = Inr (logx, g) \<and> length logx = length nl \<and>
         (\<forall>i<length nl. logx ! i = np_sum (map (\<lambda>n. fdiv (Fin (- 1)) n) (take (Suc i) nl))) \<and>
         (\<forall>i. Suc i < length nl \<longrightarrow> fle (logx ! Suc i) (logx ! i)))) \<and>
   get_logx [Fin 5, Fin 5, Fin 5, Fin 5, Fin 5] False g
     = Inr ([Fin (- 0.2), Fin (- 0.4), Fin (- 0.6), Fin (- 0.8), Fin (- 1.0)], g)"
proof (intro conjI impI)
  assume a: "nl \<noteq> [] \<and> (\<forall>n\<in>set nl. fgt n (Fin 0))"
  let ?steps = "map (\<lambda>n. fdiv (Fin (- 1)) n) nl"
  have ret: "get_logx nl False g = Inr (np_cumsum ?steps, g)"
    using a by (simp add: get_logx_deterministic)
  have nonpos: "\<forall>x\<in>set ?steps. \<exists>s\<le>0. x = Fin s"
    using a step_nonpos by auto
  have "\<forall>i<length nl. np_cumsum ?steps ! i = np_sum (map (\<lambda>n. fdiv (Fin (- 1)) n) (take (Suc i) nl))"
    by (simp add: np_cumsum_nth take_map)
  moreover have "\<forall>i. Suc i < length nl \<longrightarrow> fle (np_cumsum ?steps ! Suc i) (np_cumsum ?steps ! i)"
    using np_cumsum_nonincreasing [OF nonpos] by simp
  ultimately show "\<exists>logx. get_logx nl False g = Inr (logx, g) \<and> length logx = length nl \<and>
         (\<forall>i<length nl. logx ! i = np_sum (map (\<lambda>n. fdiv (Fin (- 1)) n) (take (Suc i) nl))) \<and>
         (\<forall>i. Suc i < length nl \<longrightarrow> fle (logx ! Suc i) (logx ! i))"
    using ret by (simp add: length_np_cumsum)
next
  show "get_logx [Fin 5, Fin 5, Fin 5, Fin 5, Fin 5] False g
     = Inr ([Fin (- 0.2), Fin (- 0.4), Fin (- 0.6), Fin (- 0.8), Fin (- 1.0)], g)"
    by (simp add: get_logx_def np_min_def fmin2_def fgt_def fpow_m1_def)
qed

theorem get_logx_prefix_sum_nonincreasing_witness:
  "[Fin 4, Fin 2] \<noteq> [] \<and> fgt (Fin 4) (Fin 0) \<and> fgt (Fin 2) (Fin 0) \<and>
   (\<exists>logx. get_logx [Fin 4, Fin 2] False (\<lambda>i. i) = Inr (logx, \<lambda>i. i) \<and> length logx = 2 \<and>
      logx ! 0 = Fin (- (1 / 4)) \<and> logx ! 1 = Fin (- (3 / 4)) \<and> fle (logx ! 1) (logx ! 0))"
proof -
  have h: "[Fin 4, Fin 2] \<noteq> [] \<and> (\<forall>n\<in>set [Fin 4, Fin 2]. fgt n (Fin 0))"
    by (simp add: fgt_def)
  from get_logx_prefix_sum_nonincreasing [of "[Fin 4, Fin 2]" "\<lambda>i. i"] h
  obtain logx where l: "get_logx [Fin 4, Fin 2] False (\<lambda>i. i) = Inr (logx, \<lambda>i. i)"
      "length logx = length [Fin 4, Fin (2::real)]"
      "\<forall>i<length [Fin 4, Fin (2::real)].
          logx ! i = np_sum (map (\<lambda>n. fdiv (Fin (- 1)) n) (take (Suc i) [Fin 4, Fin 2]))"
      "\<forall>i. Suc i < length [Fin 4, Fin (2::real)] \<longrightarrow> fle (logx ! Suc i) (logx ! i)"
    by blast
  have "logx ! 0 = Fin (- (1 / 4))"
    using l(3) by (simp add: np_sum_def)
  moreover have "logx ! 1 = Fin (- (3 / 4))"
    using l(3) by (simp add: np_sum_def)
  moreover have "fle (logx ! 1) (logx ! 0)"
    using l(4) by simp
  ultimately show ?thesis
    using l(1) l(2) by (auto simp: fgt_def)
qed

section \<open>Properties of rounding\<close>

lemma fround_exact: "fround Fin x = x"
  by (cases x) (simp_all add: fround_def)

lemma rounding_exact: "rounding Fin"
  by (simp add: rounding_def)

lemma rounding_floor: "rounding (\<lambda>x. Fin (of_int \<lfloor>x\<rfloor>))"
  by (simp add: rounding_def floor_mono)

lemma fround_lower:
  assumes "rounding rnd" and "rnd a = Fin a" and "v = PInf \<or> (\<exists>x\<ge>a. v = Fin x)"
  shows "fround rnd v = PInf \<or> (\<exists>y\<ge>a. fround rnd v = Fin y)"
  using assms(3)
proof
  assume "v = PInf"
  then show ?thesis by (simp add: fround_def)
next
  assume "\<exists>x\<ge>a. v = Fin x"
  then obtain x where x: "a \<le> x" "v = Fin x" by blast
  have "fle (rnd a) (rnd x)"
    using assms(1) x(1) by (simp add: rounding_def)
  then have "rnd x = PInf \<or> (\<exists>y\<ge>a. rnd x = Fin y)"
    using assms(2) by (cases "rnd x") simp_all
  then show ?thesis
    using x(2) by (simp add: fround_def)
qed

lemma fround_upper:
  assumes "rounding rnd" and "rnd a = Fin a" and "v = NInf \<or> (\<exists>x\<le>a. v = Fin x)"
  shows "fround rnd v = NInf \<or> (\<exists>y\<le>a. fround rnd v = Fin y)"
  using assms(3)
proof
  assume "v = NInf"
  then show ?thesis by (simp add: fround_def)
next
  assume "\<exists>x\<le>a. v = Fin x"
  then obtain x where x: "x \<le> a" "v = Fin x" by blast
  have "fle (rnd x) (rnd a)"
    using assms(1) x(1) by (simp add: rounding_def)
  then have "rnd x = NInf \<or> (\<exists>y\<le>a. rnd x = Fin y)"
    using assms(2) by (cases "rnd x") simp_all
  then show ?thesis
    using x(2) by (simp add: fround_def)
qed

section \<open>Properties of \<^verbatim>\<open>log_subtract\<close>\<close>


lemma collect_map_Inr:
  "\<forall>x\<in>set xs. h x = Inr (f x) \<Longrightarrow> collect (map h xs) = Inr (map f xs)"
  by (induction xs) simp_all

lemma log_subtract_Inr: "log_subtract rnd a b = Inr (log_subtract_value rnd a b)"
  by (simp add: log_subtract_value_def log_subtract_def)

lemma log_subtract_array_value:
  "log_subtract_array rnd as bs = Inr (map2 (log_subtract_value rnd) as bs)"
  unfolding log_subtract_array_def
  by (rule collect_map_Inr) (auto simp: log_subtract_Inr)

lemma log_subtract_exact:
  "log_subtract Fin a b = Inr (fadd a (np_log (fsub (Fin 1) (np_exp (fsub b a)))))"
  by (simp add: log_subtract_def fround_exact)

lemma log_subtract_unordered_value:
  assumes r: "rounding rnd" and lt: "flt loga logb"
  shows "log_subtract rnd loga logb = Inr NaN \<or> log_subtract rnd loga logb = Inr NInf"
proof -
  have z: "rnd 0 = Fin 0" and o: "rnd 1 = Fin 1"
    using r by (simp_all add: rounding_def)
  let ?d = "fround rnd (fsub logb loga)"
  let ?e = "fround rnd (np_exp ?d)"
  let ?s = "fround rnd (fsub (Fin 1) ?e)"
  let ?l = "fround rnd (np_log ?s)"
  have "fsub logb loga = PInf \<or> (\<exists>x\<ge>0. fsub logb loga = Fin x)"
    using lt by (cases loga; cases logb) (simp_all add: fsub_def)
  then have d: "?d = PInf \<or> (\<exists>y\<ge>0. ?d = Fin y)"
    by (rule fround_lower [OF r z])
  have "np_exp ?d = PInf \<or> (\<exists>x\<ge>1. np_exp ?d = Fin x)"
    using d by auto
  then have e: "?e = PInf \<or> (\<exists>y\<ge>1. ?e = Fin y)"
    by (rule fround_lower [OF r o])
  have "fsub (Fin 1) ?e = NInf \<or> (\<exists>x\<le>0. fsub (Fin 1) ?e = Fin x)"
    using e by (auto simp: fsub_def)
  then have s: "?s = NInf \<or> (\<exists>y\<le>0. ?s = Fin y)"
    by (rule fround_upper [OF r z])
  have "np_log ?s = NaN \<or> np_log ?s = NInf"
    using s by auto
  then have l: "?l = NaN \<or> ?l = NInf"
    by (auto simp: fround_def)
  have "loga = NInf \<or> (\<exists>a. loga = Fin a)"
    using lt by (cases loga; cases logb) simp_all
  with l have "fadd loga ?l = NaN \<or> fadd loga ?l = NInf"
    by auto
  then have "fround rnd (fadd loga ?l) = NaN \<or> fround rnd (fadd loga ?l) = NInf"
    by (auto simp: fround_def)
  then show ?thesis
    by (simp add: log_subtract_def)
qed

text \<open>
  Claim C9, as stated: \<^verbatim>\<open>log_subtract\<close> called with \<open>log_a < log_b\<close> raises an invariant
  violation instead of returning a result. It does not: at \<open>log_a = 0\<close>, \<open>log_b = 1\<close>
  the call returns NaN and raises nothing.
\<close>

theorem log_subtract_unordered_no_raise:
  "flt (Fin 0) (Fin 1) \<and> log_subtract Fin (Fin 0) (Fin 1) = Inr NaN \<and>
   \<not> isl (log_subtract Fin (Fin 0) (Fin 1))"
  by (simp add: log_subtract_exact fsub_def)

text \<open>
  Claim C9, amended: \<^verbatim>\<open>log_subtract\<close> makes no check of its arguments and raises
  nothing, whatever they are. Called with \<open>log_a < log_b\<close> it returns a value, which is
  NaN, or \<open>-inf\<close> when the exponential of the difference rounds to \<open>1\<close>.
\<close>

theorem log_subtract_unordered_returns:
  "\<not> isl (log_subtract rnd loga logb) \<and>
   (rounding rnd \<and> flt loga logb \<longrightarrow>
      log_subtract rnd loga logb = Inr NaN \<or> log_subtract rnd loga logb = Inr NInf)"
proof (intro conjI impI)
  show "\<not> isl (log_subtract rnd loga logb)"
    by (simp add: log_subtract_def)
next
  assume "rounding rnd \<and> flt loga logb"
  then show "log_subtract rnd loga logb = Inr NaN \<or> log_subtract rnd loga logb = Inr NInf"
    by (simp add: log_subtract_unordered_value)
qed

theorem log_subtract_unordered_returns_witness:
  "rounding Fin \<and> flt (Fin (- 3)) (Fin 2) \<and>
   log_subtract Fin (Fin (- 3)) (Fin 2) = Inr NaN \<and>
   rounding (\<lambda>x. Fin (of_int \<lfloor>x\<rfloor>)) \<and> flt (Fin 0) (Fin (1 / 2)) \<and>
   log_subtract (\<lambda>x. Fin (of_int \<lfloor>x\<rfloor>)) (Fin 0) (Fin (1 / 2)) = Inr NInf"
proof -
  have a: "log_subtract Fin (Fin (- 3)) (Fin 2) \<noteq> Inr NInf"
    by (simp add: log_subtract_exact fsub_def)
  have b: "log_subtract (\<lambda>x. Fin (of_int \<lfloor>x\<rfloor>)) (Fin 0) (Fin (1 / 2)) \<noteq> Inr NaN"
    by (simp add: log_subtract_def fround_def fsub_def)
  have f1: "flt (Fin (- 3)) (Fin 2)" and f2: "flt (Fin 0) (Fin (1 / 2))"
    by simp_all
  have "log_subtract Fin (Fin (- 3)) (Fin 2) = Inr NaN"
    using log_subtract_unordered_returns [of Fin "Fin (- 3)" "Fin 2"] rounding_exact f1 a
    by blast
  moreover have "log_subtract (\<lambda>x. Fin (of_int \<lfloor>x\<rfloor>)) (Fin 0) (Fin (1 / 2)) = Inr NInf"
    using log_subtract_unordered_returns [of "\<lambda>x. Fin (of_int \<lfloor>x\<rfloor>)" "Fin 0" "Fin (1 / 2)"]
      rounding_floor f2 b
    by blast
  ultimately show ?thesis
    using rounding_exact rounding_floor f1 f2 by (intro conjI)
qed

section \<open>The insufficient-sample assertion of \<^verbatim>\<open>run_ci_bootstrap\<close>\<close>





















section \<open>Properties of \<^verbatim>\<open>get_nlive\<close>\<close>

lemma get_nlive_Inr_positive:
  assumes "get_nlive run logl = Inr arr"
  shows "\<forall>i<length arr. fgt (arr ! i) (Fin 0)"
proof -
  from assms obtain m where "np_min arr = Inr m" "fgt m (Fin 0)"
    by (auto simp: get_nlive_def split: sum.splits if_splits)
  then have "\<forall>x\<in>set arr. fgt x (Fin 0)"
    using np_min_pos [of arr] by blast
  then show ?thesis by simp
qed

lemma get_nlive_raises:
  assumes rec: "nlive_reconstruct run logl = Inr arr"
    and bad: "\<exists>i<length arr. \<not> fgt (arr ! i) (Fin 0)"
  shows "get_nlive run logl = Inl (AssertionError (Nlive_contains_zeros (np_array_str arr)))"
proof -
  from bad have ne: "arr \<noteq> []" by auto
  then obtain m where m: "np_min arr = Inr m"
    by (cases arr) (auto simp: np_min_def)
  have "\<not> fgt m (Fin 0)"
  proof
    assume "fgt m (Fin 0)"
    with m have "\<forall>x\<in>set arr. fgt x (Fin 0)"
      using np_min_pos [of arr] by blast
    with bad show False by auto
  qed
  with rec m show ?thesis
    by (simp add: get_nlive_def)
qed

lemma fle_not_fgt: "fle x (Fin 0) \<Longrightarrow> \<not> fgt x (Fin 0)"
  by (cases x) (simp_all add: fgt_def)

section \<open>The dynamic branch of \<^verbatim>\<open>get_nlive\<close> counts the containing records\<close>

lemma foldl_fadd_start: "foldl fadd a xs = fadd a (np_sum xs)"
proof (induction xs arbitrary: a)
  case Nil
  show ?case by (simp add: np_sum_def fadd_zero_right)
next
  case (Cons x xs)
  have "foldl fadd (fadd a x) xs = fadd (fadd a x) (np_sum xs)"
    by (rule Cons.IH)
  moreover have "np_sum (x # xs) = fadd x (np_sum xs)"
    using Cons.IH [of "fadd (Fin 0) x"] by (simp add: np_sum_def fadd_zero_left)
  ultimately show ?case
    by (simp add: fadd_assoc)
qed

lemma np_sum_Cons: "np_sum (x # xs) = fadd x (np_sum xs)"
  using foldl_fadd_start [of "fadd (Fin 0) x" xs]
  by (simp add: np_sum_def fadd_zero_left)

lemma np_sum_Nil: "np_sum [] = Fin 0"
  by (simp add: np_sum_def)

lemma fadd_left_commute: "fadd a (fadd b c) = fadd b (fadd a c)"
  by (metis fadd_assoc fadd_commute)

lemma np_sum_partition:
  "fadd (np_sum (map f (filter P xs))) (np_sum (map f (filter (\<lambda>x. \<not> P x) xs)))
     = np_sum (map f xs)"
proof (induction xs)
  case Nil
  show ?case by (simp add: np_sum_Nil)
next
  case (Cons x xs)
  show ?case
  proof (cases "P x")
    case True
    with Cons show ?thesis by (simp add: np_sum_Cons fadd_assoc)
  next
    case False
    with Cons show ?thesis by (simp add: np_sum_Cons fadd_left_commute)
  qed
qed

lemma length_add_where:
  "length sel = length arr \<Longrightarrow> length (add_where sel v arr) = length arr"
  by (simp add: add_where_def)

lemma add_where_nth:
  "length sel = length arr \<Longrightarrow> i < length arr \<Longrightarrow>
     add_where sel v arr ! i = (if sel ! i then fadd (arr ! i) v else arr ! i)"
  by (simp add: add_where_def)

lemma foldl_add_where:
  assumes "length arr = length logl"
  shows "length (foldl (\<lambda>arr rec. add_where (map (P rec) logl) (r2 rec) arr) arr recs)
           = length logl \<and>
         (\<forall>i<length logl.
            foldl (\<lambda>arr rec. add_where (map (P rec) logl) (r2 rec) arr) arr recs ! i
              = foldl fadd (arr ! i) (map r2 (filter (\<lambda>rec. P rec (logl ! i)) recs)))"
  using assms
proof (induction recs arbitrary: arr)
  case Nil
  then show ?case by simp
next
  case (Cons rec recs)
  let ?arr' = "add_where (map (P rec) logl) (r2 rec) arr"
  have len: "length ?arr' = length logl"
    using Cons.prems by (simp add: length_add_where)
  have nth: "\<forall>i<length logl. ?arr' ! i = (if P rec (logl ! i) then fadd (arr ! i) (r2 rec) else arr ! i)"
    using Cons.prems by (simp add: add_where_nth)
  from Cons.IH [OF len] nth show ?case
    by simp
qed

lemma live_count_spec_split:
  "live_count_spec lmm l =
     fadd (fadd (np_sum (map r2 (filter (\<lambda>rec. isnan (r0 rec) \<and> fge (r1 rec) l) lmm)))
                (np_sum (map r2 (filter (\<lambda>rec. isnan (r1 rec) \<and> fgt l (r0 rec)) lmm))))
          (np_sum (map r2 (filter (\<lambda>rec. (\<not> isnan (r0 rec) \<and> \<not> isnan (r1 rec)) \<and>
                                          fge (r1 rec) l \<and> fgt l (r0 rec)) lmm)))"
proof -
  let ?Q = "\<lambda>rec. record_contains rec l"
  let ?n0 = "\<lambda>rec. isnan (r0 rec)"
  let ?n1 = "\<lambda>rec. isnan (r1 rec)"
  have nan_cmp: "\<And>x. isnan x \<Longrightarrow> \<not> fgt l x"
    by (case_tac x; cases l) (simp_all add: fgt_def)
  have c1: "filter ?n0 (filter ?Q lmm) = filter (\<lambda>rec. isnan (r0 rec) \<and> fge (r1 rec) l) lmm"
    by (auto simp: record_contains_def fge_def intro!: filter_cong)
  have c2: "filter ?n1 (filter (\<lambda>rec. \<not> ?n0 rec) (filter ?Q lmm))
              = filter (\<lambda>rec. isnan (r1 rec) \<and> fgt l (r0 rec)) lmm"
    using nan_cmp by (auto simp: record_contains_def intro!: filter_cong)
  have c3: "filter (\<lambda>rec. \<not> ?n1 rec) (filter (\<lambda>rec. \<not> ?n0 rec) (filter ?Q lmm))
              = filter (\<lambda>rec. (\<not> isnan (r0 rec) \<and> \<not> isnan (r1 rec)) \<and>
                               fge (r1 rec) l \<and> fgt l (r0 rec)) lmm"
    by (auto simp: record_contains_def fge_def fgt_def intro!: filter_cong)
  have "live_count_spec lmm l = np_sum (map r2 (filter ?Q lmm))"
    by (simp add: live_count_spec_def)
  also have "\<dots> = fadd (np_sum (map r2 (filter ?n0 (filter ?Q lmm))))
                      (np_sum (map r2 (filter (\<lambda>rec. \<not> ?n0 rec) (filter ?Q lmm))))"
    by (rule np_sum_partition [symmetric])
  also have "np_sum (map r2 (filter (\<lambda>rec. \<not> ?n0 rec) (filter ?Q lmm)))
               = fadd (np_sum (map r2 (filter ?n1 (filter (\<lambda>rec. \<not> ?n0 rec) (filter ?Q lmm)))))
                      (np_sum (map r2 (filter (\<lambda>rec. \<not> ?n1 rec)
                                         (filter (\<lambda>rec. \<not> ?n0 rec) (filter ?Q lmm)))))"
    by (rule np_sum_partition [symmetric])
  finally show ?thesis
    unfolding c1 c2 c3 by (simp only: fadd_assoc)
qed

lemma nlive_dynamic_counts:
  assumes "nlive_dynamic lmm logl = Inr arr"
  shows "length arr = length logl \<and>
         (\<forall>i<length logl. arr ! i = live_count_spec lmm (logl ! i))"
proof -
  let ?arr0 = "replicate (length logl) (Fin 0)"
  let ?arr1 = "foldl (\<lambda>arr rec. add_where (map (\<lambda>l. fge (r1 rec) l) logl) (r2 rec) arr)
                 ?arr0 (filter (\<lambda>rec. isnan (r0 rec)) lmm)"
  let ?arr2 = "foldl (\<lambda>arr rec. add_where (map (\<lambda>l. fgt l (r0 rec)) logl) (r2 rec) arr)
                 ?arr1 (filter (\<lambda>rec. isnan (r1 rec)) lmm)"
  let ?arr3 = "foldl (\<lambda>arr rec. add_where
                        (map (\<lambda>l. fge (r1 rec) l \<and> fgt l (r0 rec)) logl) (r2 rec) arr)
                 ?arr2 (filter (\<lambda>rec. \<not> isnan (r0 rec) \<and> \<not> isnan (r1 rec)) lmm)"
  have arr: "arr = ?arr3"
    using assms by (simp add: nlive_dynamic_def Let_def split: if_splits)
  have s1: "length ?arr1 = length logl \<and>
            (\<forall>i<length logl. ?arr1 ! i
               = foldl fadd (?arr0 ! i)
                   (map r2 (filter (\<lambda>rec. fge (r1 rec) (logl ! i))
                              (filter (\<lambda>rec. isnan (r0 rec)) lmm))))"
    by (rule foldl_add_where [where P = "\<lambda>rec l. fge (r1 rec) l"]) simp
  have s2: "length ?arr2 = length logl \<and>
            (\<forall>i<length logl. ?arr2 ! i
               = foldl fadd (?arr1 ! i)
                   (map r2 (filter (\<lambda>rec. fgt (logl ! i) (r0 rec))
                              (filter (\<lambda>rec. isnan (r1 rec)) lmm))))"
    using s1 by (intro foldl_add_where [where P = "\<lambda>rec l. fgt l (r0 rec)"]) simp
  have s3: "length ?arr3 = length logl \<and>
            (\<forall>i<length logl. ?arr3 ! i
               = foldl fadd (?arr2 ! i)
                   (map r2 (filter (\<lambda>rec. fge (r1 rec) (logl ! i) \<and> fgt (logl ! i) (r0 rec))
                              (filter (\<lambda>rec. \<not> isnan (r0 rec) \<and> \<not> isnan (r1 rec)) lmm))))"
    using s2
    by (intro foldl_add_where [where P = "\<lambda>rec l. fge (r1 rec) l \<and> fgt l (r0 rec)"]) simp
  have "\<forall>i<length logl. ?arr3 ! i = live_count_spec lmm (logl ! i)"
  proof (intro allI impI)
    fix i assume i: "i < length logl"
    show "?arr3 ! i = live_count_spec lmm (logl ! i)"
      using s1 s2 s3 i
      by (simp only: live_count_spec_split foldl_fadd_start [of _ "map r2 _"]
            filter_filter nth_replicate fadd_zero_left)
  qed
  with s3 arr show ?thesis by simp
qed

lemma get_nlive_dynamic_returns:
  assumes keys: "nlive_array run = None" "thread_logl_min_max run = Some lmm"
    and no_both: "filter (\<lambda>rec. isnan (r0 rec) \<and> isnan (r1 rec)) lmm = []"
    and ne: "L \<noteq> []"
    and pos: "\<forall>l\<in>set L. fgt (live_count_spec lmm l) (Fin 0)"
  shows "get_nlive run L = Inr (map (live_count_spec lmm) L)"
proof -
  obtain arr where arr: "nlive_dynamic lmm L = Inr arr"
    using no_both by (simp add: nlive_dynamic_def Let_def)
  have "length arr = length L \<and> (\<forall>i<length L. arr ! i = live_count_spec lmm (L ! i))"
    using arr by (rule nlive_dynamic_counts)
  then have eq: "arr = map (live_count_spec lmm) L"
    by (intro nth_equalityI) simp_all
  have "map (live_count_spec lmm) L \<noteq> [] \<and>
        (\<forall>x\<in>set (map (live_count_spec lmm) L). fgt x (Fin 0))"
    using ne pos by simp
  then obtain m where "np_min (map (live_count_spec lmm) L) = Inr m" "fgt m (Fin 0)"
    using np_min_pos [of "map (live_count_spec lmm) L"] by blast
  with keys arr eq show ?thesis
    by (simp add: get_nlive_def nlive_reconstruct_def)
qed

text \<open>
  Claim C1. For a dynamic run (the key \<^verbatim>\<open>nlive_array\<close> missing, the key
  \<^verbatim>\<open>thread_logl_min_max\<close> present), the array that \<^verbatim>\<open>get_nlive\<close> returns has one entry
  for each log-likelihood, and entry \<open>i\<close> is the sum of the multiplicities of the interval
  records that contain \<open>L[i]\<close>: a record without a start where \<open>L[i] \<le> logl_max\<close>, a
  record without an end where \<open>L[i] > logl_min\<close>, a bounded record where
  \<open>logl_min < L[i] \<le> logl_max\<close>. The function returns this array whenever no record
  lacks both bounds, there is a log-likelihood, and every such sum is positive. The
  records \<open>[(NaN, -2, 3), (-2, NaN, 2)]\<close> over \<open>[-5, -3, -1]\<close> give \<open>[3, 3, 2]\<close>.
\<close>

theorem get_nlive_dynamic_interval_sum:
  "(nlive_array run = None \<and> thread_logl_min_max run = Some lmm \<and> get_nlive run L = Inr res
      \<longrightarrow> length res = length L \<and> (\<forall>i<length L. res ! i = live_count_spec lmm (L ! i))) \<and>
   (nlive_array run = None \<and> thread_logl_min_max run = Some lmm \<and>
    filter (\<lambda>rec. isnan (r0 rec) \<and> isnan (r1 rec)) lmm = [] \<and> L \<noteq> [] \<and>
    (\<forall>l\<in>set L. fgt (live_count_spec lmm l) (Fin 0))
      \<longrightarrow> get_nlive run L = Inr (map (live_count_spec lmm) L)) \<and>
   get_nlive
     \<lparr>threads = ths,
      thread_logl_min_max = Some [(NaN, Fin (- 2), Fin 3), (Fin (- 2), NaN, Fin 2)],
      nlive_array = None, settings = st\<rparr>
     [Fin (- 5), Fin (- 3), Fin (- 1)] = Inr [Fin 3, Fin 3, Fin 2]"
proof (intro conjI impI)
  assume a: "nlive_array run = None \<and> thread_logl_min_max run = Some lmm \<and>
             get_nlive run L = Inr res"
  then have "nlive_dynamic lmm L = Inr res"
    by (auto simp: get_nlive_def nlive_reconstruct_def split: sum.splits if_splits)
  then have r: "length res = length L \<and> (\<forall>i<length L. res ! i = live_count_spec lmm (L ! i))"
    by (rule nlive_dynamic_counts)
  from r show "length res = length L" by simp
  from r show "\<forall>i<length L. res ! i = live_count_spec lmm (L ! i)" by simp
next
  assume "nlive_array run = None \<and> thread_logl_min_max run = Some lmm \<and>
    filter (\<lambda>rec. isnan (r0 rec) \<and> isnan (r1 rec)) lmm = [] \<and> L \<noteq> [] \<and>
    (\<forall>l\<in>set L. fgt (live_count_spec lmm l) (Fin 0))"
  then show "get_nlive run L = Inr (map (live_count_spec lmm) L)"
    by (simp add: get_nlive_dynamic_returns)
next
  show "get_nlive
     \<lparr>threads = ths,
      thread_logl_min_max = Some [(NaN, Fin (- 2), Fin 3), (Fin (- 2), NaN, Fin 2)],
      nlive_array = None, settings = st\<rparr>
     [Fin (- 5), Fin (- 3), Fin (- 1)] = Inr [Fin 3, Fin 3, Fin 2]"
    by (simp add: get_nlive_def nlive_reconstruct_def nlive_dynamic_def add_where_def
          r0_def r1_def r2_def fge_def fgt_def np_min_def fmin2_def)
qed

theorem get_nlive_dynamic_interval_sum_witness:
  "nlive_array
     \<lparr>threads = [],
      thread_logl_min_max = Some [(NaN, Fin (- 2), Fin 3), (Fin (- 4), Fin 0, Fin 2)],
      nlive_array = None,
      settings = \<lparr>dynamic_goal = Some 1, nlive = 5, nlive_1 = 3\<rparr>\<rparr> = None \<and>
   get_nlive
     \<lparr>threads = [],
      thread_logl_min_max = Some [(NaN, Fin (- 2), Fin 3), (Fin (- 4), Fin 0, Fin 2)],
      nlive_array = None,
      settings = \<lparr>dynamic_goal = Some 1, nlive = 5, nlive_1 = 3\<rparr>\<rparr>
     [Fin (- 5), Fin (- 3), Fin (- 1)] = Inr [Fin 3, Fin 5, Fin 2] \<and>
   [Fin 3, Fin 5, Fin 2] ! 1
     = live_count_spec [(NaN, Fin (- 2), Fin 3), (Fin (- 4), Fin 0, Fin 2)]
         ([Fin (- 5), Fin (- 3), Fin (- 1)] ! 1) \<and>
   live_count_spec [(NaN, Fin (- 2), Fin 3), (Fin (- 4), Fin 0, Fin 2)] (Fin (- 3)) = Fin 5"
proof -
  let ?lmm = "[(NaN, Fin (- 2), Fin 3), (Fin (- 4), Fin 0, Fin 2)]"
  let ?R = "\<lparr>threads = [], thread_logl_min_max = Some ?lmm, nlive_array = None,
      settings = \<lparr>dynamic_goal = Some 1, nlive = 5, nlive_1 = 3\<rparr>\<rparr>"
  let ?L = "[Fin (- 5), Fin (- 3), Fin (- 1)]"
  have ret: "get_nlive ?R ?L = Inr [Fin 3, Fin 5, Fin 2]"
    by (simp add: get_nlive_def nlive_reconstruct_def nlive_dynamic_def add_where_def
          r0_def r1_def r2_def fge_def fgt_def np_min_def fmin2_def)
  have all: "\<forall>i<length ?L. [Fin 3, Fin 5, Fin 2] ! i = live_count_spec ?lmm (?L ! i)"
    using get_nlive_dynamic_interval_sum [of ?R ?lmm ?L "[Fin 3, Fin 5, Fin 2]"] ret
    by simp
  have "1 < length ?L"
    by simp
  with all have one: "[Fin 3, Fin 5, Fin 2] ! 1 = live_count_spec ?lmm (?L ! 1)"
    by blast
  then have "live_count_spec ?lmm (Fin (- 3)) = Fin 5"
    by simp
  with ret one show ?thesis
    by simp
qed

section \<open>The assertion of \<^verbatim>\<open>get_nlive\<close> and what its message shows\<close>

lemma nlive_reconstruct_dynamic:
  assumes "nlive_array run = None" "thread_logl_min_max run = Some lmm"
    and "filter (\<lambda>rec. isnan (r0 rec) \<and> isnan (r1 rec)) lmm = []"
  shows "nlive_reconstruct run L = Inr (map (live_count_spec lmm) L)"
proof -
  obtain arr where arr: "nlive_dynamic lmm L = Inr arr"
    using assms(3) by (simp add: nlive_dynamic_def Let_def)
  have "length arr = length L \<and> (\<forall>i<length L. arr ! i = live_count_spec lmm (L ! i))"
    using arr by (rule nlive_dynamic_counts)
  then have "arr = map (live_count_spec lmm) L"
    by (intro nth_equalityI) simp_all
  with assms(1,2) arr show ?thesis
    by (simp add: nlive_reconstruct_def)
qed

lemma gap_records_counts:
  "live_count_spec [(NaN, Fin (- 2), Fin 3), (Fin 0, NaN, Fin 2)] (Fin (- 5)) = Fin 3"
  "live_count_spec [(NaN, Fin (- 2), Fin 3), (Fin 0, NaN, Fin 2)] (Fin (- 1)) = Fin 0"
  "live_count_spec [(NaN, Fin (- 2), Fin 3), (Fin 0, NaN, Fin 2)] (Fin 1) = Fin 2"
  by (simp_all add: live_count_spec_def record_contains_def r0_def r1_def r2_def np_sum_def
        fgt_def)

lemma np_array_str_long:
  assumes "3 \<le> a" "3 \<le> b" "1000 < a + b"
  shows "np_array_str (replicate a x @ [y] @ replicate b z) = Abbreviated [x, x, x] [z, z, z]"
proof -
  obtain n where b: "b = n + 3"
    using assms(2) by (metis le_add_diff_inverse2)
  have t: "take 3 (replicate a x @ [y] @ replicate b z) = [x, x, x]"
    using assms(1) by (simp add: min_def eval_nat_numeral)
  have l: "length (replicate a x @ [y] @ replicate b z) = a + 1 + n + 3"
    by (simp add: b)
  have "drop (a + 1 + n) (replicate a x @ [y] @ replicate (n + 3) z) = replicate 3 z"
    by simp
  then have d: "drop (a + 1 + n + 3 - 3) (replicate a x @ [y] @ replicate b z) = [z, z, z]"
    by (simp add: b eval_nat_numeral)
  have "1000 < a + 1 + n + 3"
    using assms(3) b by simp
  then show ?thesis
    unfolding np_array_str_def l using t d by simp
qed

lemma gap_run_raises:
  assumes "3 \<le> a" "3 \<le> b" "1000 < a + b"
  shows "nlive_reconstruct
           \<lparr>threads = [],
            thread_logl_min_max = Some [(NaN, Fin (- 2), Fin 3), (Fin 0, NaN, Fin 2)],
            nlive_array = None,
            settings = \<lparr>dynamic_goal = Some 1, nlive = 5, nlive_1 = 5\<rparr>\<rparr>
           (replicate a (Fin (- 5)) @ [Fin (- 1)] @ replicate b (Fin 1))
         = Inr (replicate a (Fin 3) @ [Fin 0] @ replicate b (Fin 2))"
    and "get_nlive
           \<lparr>threads = [],
            thread_logl_min_max = Some [(NaN, Fin (- 2), Fin 3), (Fin 0, NaN, Fin 2)],
            nlive_array = None,
            settings = \<lparr>dynamic_goal = Some 1, nlive = 5, nlive_1 = 5\<rparr>\<rparr>
           (replicate a (Fin (- 5)) @ [Fin (- 1)] @ replicate b (Fin 1))
         = Inl (AssertionError (Nlive_contains_zeros
                  (Abbreviated [Fin 3, Fin 3, Fin 3] [Fin 2, Fin 2, Fin 2])))"
proof -
  let ?R = "\<lparr>threads = [],
            thread_logl_min_max = Some [(NaN, Fin (- 2), Fin 3), (Fin 0, NaN, Fin 2)],
            nlive_array = None,
            settings = \<lparr>dynamic_goal = Some 1, nlive = 5, nlive_1 = 5\<rparr>\<rparr>"
  let ?L = "replicate a (Fin (- 5)) @ [Fin (- 1)] @ replicate b (Fin 1)"
  let ?A = "replicate a (Fin 3) @ [Fin 0] @ replicate b (Fin 2)"
  have "nlive_reconstruct ?R ?L
          = Inr (map (live_count_spec [(NaN, Fin (- 2), Fin 3), (Fin 0, NaN, Fin 2)]) ?L)"
    by (rule nlive_reconstruct_dynamic) (simp_all add: r0_def r1_def)
  then show rec: "nlive_reconstruct ?R ?L = Inr ?A"
    by (simp add: gap_records_counts)
  have "a < length ?A \<and> \<not> fgt (?A ! a) (Fin 0)"
    by (simp add: nth_append fgt_def)
  then have "\<exists>i<length ?A. \<not> fgt (?A ! i) (Fin 0)"
    by blast
  with rec have "get_nlive ?R ?L = Inl (AssertionError (Nlive_contains_zeros (np_array_str ?A)))"
    by (rule get_nlive_raises)
  then show "get_nlive ?R ?L
         = Inl (AssertionError (Nlive_contains_zeros
                  (Abbreviated [Fin 3, Fin 3, Fin 3] [Fin 2, Fin 2, Fin 2])))"
    using np_array_str_long [OF assms] by simp
qed

text \<open>
  Claim C8, as stated: every array that \<^verbatim>\<open>get_nlive\<close> returns is strictly positive at
  every index, and whenever the reconstructed array has a zero or negative entry
  \<^verbatim>\<open>get_nlive\<close> raises an error that identifies the offending indices. The error does not
  identify them: the message is \<^verbatim>\<open>str(nlive_array)\<close> and no index is computed. Two
  dynamic runs of 1201 samples whose reconstructed arrays have their one zero at index
  600 and at index 700 raise the same error, in which no zero is printed.
\<close>

theorem get_nlive_error_without_index:
  "nlive_reconstruct
     \<lparr>threads = [],
      thread_logl_min_max = Some [(NaN, Fin (- 2), Fin 3), (Fin 0, NaN, Fin 2)],
      nlive_array = None,
      settings = \<lparr>dynamic_goal = Some 1, nlive = 5, nlive_1 = 5\<rparr>\<rparr>
     (replicate 600 (Fin (- 5)) @ [Fin (- 1)] @ replicate 600 (Fin 1))
     = Inr (replicate 600 (Fin 3) @ [Fin 0] @ replicate 600 (Fin 2)) \<and>
   nlive_reconstruct
     \<lparr>threads = [],
      thread_logl_min_max = Some [(NaN, Fin (- 2), Fin 3), (Fin 0, NaN, Fin 2)],
      nlive_array = None,
      settings = \<lparr>dynamic_goal = Some 1, nlive = 5, nlive_1 = 5\<rparr>\<rparr>
     (replicate 700 (Fin (- 5)) @ [Fin (- 1)] @ replicate 500 (Fin 1))
     = Inr (replicate 700 (Fin 3) @ [Fin 0] @ replicate 500 (Fin 2)) \<and>
   (replicate 600 (Fin 3) @ [Fin 0] @ replicate 600 (Fin 2)) ! 600 = Fin 0 \<and>
   (replicate 600 (Fin 3) @ [Fin 0] @ replicate 600 (Fin 2)) ! 700 = Fin 2 \<and>
   (replicate 700 (Fin 3) @ [Fin 0] @ replicate 500 (Fin 2)) ! 600 = Fin 3 \<and>
   (replicate 700 (Fin 3) @ [Fin 0] @ replicate 500 (Fin 2)) ! 700 = Fin 0 \<and>
   get_nlive
     \<lparr>threads = [],
      thread_logl_min_max = Some [(NaN, Fin (- 2), Fin 3), (Fin 0, NaN, Fin 2)],
      nlive_array = None,
      settings = \<lparr>dynamic_goal = Some 1, nlive = 5, nlive_1 = 5\<rparr>\<rparr>
     (replicate 600 (Fin (- 5)) @ [Fin (- 1)] @ replicate 600 (Fin 1))
     = Inl (AssertionError (Nlive_contains_zeros
              (Abbreviated [Fin 3, Fin 3, Fin 3] [Fin 2, Fin 2, Fin 2]))) \<and>
   get_nlive
     \<lparr>threads = [],
      thread_logl_min_max = Some [(NaN, Fin (- 2), Fin 3), (Fin 0, NaN, Fin 2)],
      nlive_array = None,
      settings = \<lparr>dynamic_goal = Some 1, nlive = 5, nlive_1 = 5\<rparr>\<rparr>
     (replicate 700 (Fin (- 5)) @ [Fin (- 1)] @ replicate 500 (Fin 1))
     = Inl (AssertionError (Nlive_contains_zeros
              (Abbreviated [Fin 3, Fin 3, Fin 3] [Fin 2, Fin 2, Fin 2])))"
proof -
  have i1: "(replicate 600 (Fin 3) @ [Fin 0] @ replicate 600 (Fin 2)) ! 600 = Fin 0"
    and i2: "(replicate 600 (Fin 3) @ [Fin 0] @ replicate 600 (Fin 2)) ! 700 = Fin 2"
    and i3: "(replicate 700 (Fin 3) @ [Fin 0] @ replicate 500 (Fin 2)) ! 600 = Fin 3"
    and i4: "(replicate 700 (Fin 3) @ [Fin 0] @ replicate 500 (Fin 2)) ! 700 = Fin 0"
    by (simp_all add: nth_append)
  show ?thesis
    using gap_run_raises(1) [of 600 600] gap_run_raises(1) [of 700 500] i1 i2 i3 i4
      gap_run_raises(2) [of 600 600] gap_run_raises(2) [of 700 500]
    by (intro conjI) simp_all
qed

text \<open>
  Claim C8, amended: every array that \<^verbatim>\<open>get_nlive\<close> returns is strictly positive at
  every index. Whenever the array the function has built has an entry that is zero or
  negative, \<^verbatim>\<open>get_nlive\<close> does not return: it raises the assertion whose message is
  \<^verbatim>\<open>str\<close> of that array, which prints the whole array when it has at most 1000 entries
  and its first three and last three entries otherwise. No index is computed.
\<close>

theorem get_nlive_strictly_positive_or_raises:
  "(get_nlive run logl = Inr arr \<longrightarrow> (\<forall>i<length arr. fgt (arr ! i) (Fin 0))) \<and>
   (nlive_reconstruct run logl = Inr arr \<and> (\<exists>i<length arr. fle (arr ! i) (Fin 0)) \<longrightarrow>
      get_nlive run logl = Inl (AssertionError (Nlive_contains_zeros (np_array_str arr))) \<and>
      (length arr \<le> 1000 \<longrightarrow> np_array_str arr = Printed arr) \<and>
      (1000 < length arr \<longrightarrow>
         np_array_str arr = Abbreviated (take 3 arr) (drop (length arr - 3) arr)))"
proof (intro conjI impI)
  assume "get_nlive run logl = Inr arr"
  then show "\<forall>i<length arr. fgt (arr ! i) (Fin 0)"
    by (rule get_nlive_Inr_positive)
next
  assume a: "nlive_reconstruct run logl = Inr arr \<and> (\<exists>i<length arr. fle (arr ! i) (Fin 0))"
  then have "\<exists>i<length arr. \<not> fgt (arr ! i) (Fin 0)"
    using fle_not_fgt by blast
  with a show "get_nlive run logl = Inl (AssertionError (Nlive_contains_zeros (np_array_str arr)))"
    by (simp add: get_nlive_raises)
next
  assume "length arr \<le> 1000"
  then show "np_array_str arr = Printed arr"
    by (simp add: np_array_str_def)
next
  assume "1000 < length arr"
  then show "np_array_str arr = Abbreviated (take 3 arr) (drop (length arr - 3) arr)"
    by (simp add: np_array_str_def)
qed

theorem get_nlive_strictly_positive_or_raises_witness:
  "get_nlive
     \<lparr>threads = [],
      thread_logl_min_max = Some [(NaN, Fin (- 2), Fin 3), (Fin (- 4), NaN, Fin 2)],
      nlive_array = None,
      settings = \<lparr>dynamic_goal = Some 1, nlive = 5, nlive_1 = 5\<rparr>\<rparr>
     [Fin (- 5), Fin (- 3), Fin (- 1)] = Inr [Fin 3, Fin 5, Fin 2] \<and>
   fgt ([Fin 3, Fin 5, Fin 2] ! 0) (Fin 0) \<and>
   fgt ([Fin 3, Fin 5, Fin 2] ! 1) (Fin 0) \<and>
   fgt ([Fin 3, Fin 5, Fin 2] ! 2) (Fin 0) \<and>
   nlive_reconstruct
     \<lparr>threads = [], thread_logl_min_max = Some [(NaN, Fin (- 2), Fin 3)],
      nlive_array = None,
      settings = \<lparr>dynamic_goal = Some 1, nlive = 5, nlive_1 = 5\<rparr>\<rparr>
     [Fin (- 5), Fin (- 1)] = Inr [Fin 3, Fin 0] \<and>
   fle ([Fin 3, Fin 0] ! 1) (Fin 0) \<and>
   get_nlive
     \<lparr>threads = [], thread_logl_min_max = Some [(NaN, Fin (- 2), Fin 3)],
      nlive_array = None,
      settings = \<lparr>dynamic_goal = Some 1, nlive = 5, nlive_1 = 5\<rparr>\<rparr>
     [Fin (- 5), Fin (- 1)]
     = Inl (AssertionError (Nlive_contains_zeros (Printed [Fin 3, Fin 0])))"
proof -
  let ?R1 = "\<lparr>threads = [],
      thread_logl_min_max = Some [(NaN, Fin (- 2), Fin 3), (Fin (- 4), NaN, Fin 2)],
      nlive_array = None,
      settings = \<lparr>dynamic_goal = Some 1, nlive = 5, nlive_1 = 5\<rparr>\<rparr>"
  let ?R2 = "\<lparr>threads = [], thread_logl_min_max = Some [(NaN, Fin (- 2), Fin 3)],
      nlive_array = None,
      settings = \<lparr>dynamic_goal = Some 1, nlive = 5, nlive_1 = 5\<rparr>\<rparr>"
  have r1: "get_nlive ?R1 [Fin (- 5), Fin (- 3), Fin (- 1)] = Inr [Fin 3, Fin 5, Fin 2]"
    by (simp add: get_nlive_def nlive_reconstruct_def nlive_dynamic_def add_where_def
          r0_def r1_def r2_def fge_def fgt_def np_min_def fmin2_def)
  have r2: "nlive_reconstruct ?R2 [Fin (- 5), Fin (- 1)] = Inr [Fin 3, Fin 0]"
    by (simp add: nlive_reconstruct_def nlive_dynamic_def add_where_def
          r0_def r1_def r2_def fge_def fgt_def)
  have le: "fle ([Fin 3, Fin 0] ! 1) (Fin 0)"
    by simp
  have bad: "\<exists>i<length [Fin 3, Fin 0]. fle ([Fin 3, Fin 0] ! i) (Fin 0)"
    by (rule exI [of _ 1]) simp
  have short: "length [Fin 3, Fin 0] \<le> 1000"
    by simp
  have pos: "\<forall>i<length [Fin 3, Fin 5, Fin 2]. fgt ([Fin 3, Fin 5, Fin 2] ! i) (Fin 0)"
    using get_nlive_strictly_positive_or_raises
            [of ?R1 "[Fin (- 5), Fin (- 3), Fin (- 1)]" "[Fin 3, Fin 5, Fin 2]"] r1
    by blast
  have p0: "fgt ([Fin 3, Fin 5, Fin 2] ! 0) (Fin 0)"
    using pos by (simp add: fgt_def)
  have p1: "fgt ([Fin 3, Fin 5, Fin 2] ! 1) (Fin 0)"
    using pos by (simp add: fgt_def)
  have p2: "fgt ([Fin 3, Fin 5, Fin 2] ! 2) (Fin 0)"
    using pos by (simp add: fgt_def)
  have "get_nlive ?R2 [Fin (- 5), Fin (- 1)]
          = Inl (AssertionError (Nlive_contains_zeros (np_array_str [Fin 3, Fin 0]))) \<and>
        np_array_str [Fin 3, Fin 0] = Printed [Fin 3, Fin 0]"
    using get_nlive_strictly_positive_or_raises
            [of ?R2 "[Fin (- 5), Fin (- 1)]" "[Fin 3, Fin 0]"] r2 bad short
    by blast
  then have raise: "get_nlive ?R2 [Fin (- 5), Fin (- 1)]
                 = Inl (AssertionError (Nlive_contains_zeros (Printed [Fin 3, Fin 0])))"
    by simp
  show ?thesis
    using r1 p0 p1 p2 r2 le raise by (intro conjI)
qed

section \<open>Properties of \<^verbatim>\<open>merge_lrxp\<close>\<close>

lemma merge_loop_skips_absent:
  "merge_loop out ths = merge_loop out (map Some (present_tables ths))"
proof (induction out ths rule: merge_loop.induct)
  case (1 out)
  show ?case by simp
next
  case (2 out rest)
  then show ?case by simp
next
  case (3 array rest)
  then show ?case by simp
next
  case (4 out array rest)
  then show ?case by (simp split: sum.splits)
qed

lemma present_tables_empty_iff: "present_tables ths = [] \<longleftrightarrow> (\<forall>t\<in>set ths. t = None)"
  by (induction ths rule: present_tables.induct) simp_all

lemma present_tables_set: "tbl \<in> set (present_tables ths) \<longleftrightarrow> Some tbl \<in> set ths"
  by (induction ths rule: present_tables.induct) auto

lemma np_vstack_uniform:
  assumes "\<forall>row\<in>set a. length (row_theta row) = k" "\<forall>row\<in>set b. length (row_theta row) = k"
  shows "np_vstack a b = Inr (a @ b)"
  using assms by (cases a; cases b) (simp_all add: np_vstack_def table_width_def)

lemma merge_loop_Some_uniform:
  assumes "\<forall>tbl\<in>set tbls. \<forall>row\<in>set tbl. length (row_theta row) = k"
    and "\<forall>row\<in>set out. length (row_theta row) = k"
  shows "merge_loop (Some out) (map Some tbls) = Inr (Some (out @ concat tbls))"
  using assms
proof (induction tbls arbitrary: out)
  case Nil
  show ?case by simp
next
  case (Cons t tbls)
  have v: "np_vstack out t = Inr (out @ t)"
    using Cons.prems by (intro np_vstack_uniform [where k = k]) simp_all
  have "merge_loop (Some (out @ t)) (map Some tbls) = Inr (Some ((out @ t) @ concat tbls))"
    using Cons.prems by (intro Cons.IH) auto
  with v show ?case by simp
qed

lemma merge_loop_None_uniform:
  assumes "\<forall>tbl\<in>set tbls. \<forall>row\<in>set tbl. length (row_theta row) = k" and "tbls \<noteq> []"
  shows "merge_loop None (map Some tbls) = Inr (Some (concat tbls))"
proof (cases tbls)
  case Nil
  with assms show ?thesis by simp
next
  case (Cons t rest)
  with assms show ?thesis
    using merge_loop_Some_uniform [of rest k t] by simp
qed

lemma mset_np_argsort: "mset (np_argsort ks) = mset [0..<length ks]"
  by (simp add: np_argsort_def)

lemma mset_sorted_table:
  "mset (map (\<lambda>i. out ! i) (np_argsort (map row_logl out))) = mset out"
proof -
  have "mset (map (\<lambda>i. out ! i) (np_argsort (map row_logl out)))
          = image_mset (\<lambda>i. out ! i) (mset (np_argsort (map row_logl out)))"
    by simp
  also have "\<dots> = image_mset (\<lambda>i. out ! i) (mset [0..<length out])"
    by (simp add: mset_np_argsort)
  also have "\<dots> = mset (map (\<lambda>i. out ! i) [0..<length out])"
    by simp
  also have "\<dots> = mset out"
    by (simp add: map_nth)
  finally show ?thesis .
qed

lemma sorted_sorted_table:
  "sorted (map (\<lambda>row. sort_rank (row_logl row))
             (map (\<lambda>i. out ! i) (np_argsort (map row_logl out))))"
proof -
  let ?perm = "np_argsort (map row_logl out)"
  have "set ?perm = set [0..<length out]"
    using mset_np_argsort [of "map row_logl out"] by (metis length_map mset_eq_setD)
  then have "\<forall>i\<in>set ?perm. i < length out"
    by simp
  then have eq: "map (\<lambda>row. sort_rank (row_logl row)) (map (\<lambda>i. out ! i) ?perm)
               = map (\<lambda>i. sort_rank (map row_logl out ! i)) ?perm"
    by simp
  have "sorted (map (\<lambda>i. sort_rank (map row_logl out ! i)) ?perm)"
    unfolding np_argsort_def by (rule sorted_sort_key)
  then show ?thesis by (simp only: eq)
qed

lemma sort_rank_le_iff:
  "\<not> isnan a \<Longrightarrow> \<not> isnan b \<Longrightarrow> sort_rank a \<le> sort_rank b \<longleftrightarrow> fle a b"
  by (cases a; cases b) (simp_all add: less_eq_prod_def)

lemma sorted_rank_imp_sorted_fle:
  assumes "sorted (map (\<lambda>row. sort_rank (row_logl row)) tbl)"
    and "\<forall>row\<in>set tbl. \<not> isnan (row_logl row)"
  shows "sorted_wrt (\<lambda>a b. fle (row_logl a) (row_logl b)) tbl"
  using assms
proof (induction tbl)
  case Nil
  show ?case by simp
next
  case (Cons x tbl)
  then show ?case by (auto simp: sort_rank_le_iff)
qed

lemma merge_lrxp_present:
  "merge_lrxp ths = merge_lrxp (map Some (present_tables ths))"
  by (simp add: merge_lrxp_def merge_loop_skips_absent [of None ths])

lemma merge_lrxp_all_absent:
  "(\<forall>t\<in>set ths. t = None) \<Longrightarrow> merge_lrxp ths = Inr None"
  using merge_loop_skips_absent [of None ths]
  by (simp add: merge_lrxp_def present_tables_empty_iff [symmetric])

lemma merge_lrxp_uniform:
  assumes some: "\<exists>t\<in>set ths. t \<noteq> None"
    and uni: "\<forall>tbl. Some tbl \<in> set ths \<longrightarrow> (\<forall>row\<in>set tbl. length (row_theta row) = k)"
  shows "merge_lrxp ths
           = Inr (Some (map (\<lambda>i. concat (present_tables ths) ! i)
                          (np_argsort (map row_logl (concat (present_tables ths))))))"
proof -
  have ne: "present_tables ths \<noteq> []"
    using some by (simp add: present_tables_empty_iff)
  have "\<forall>tbl\<in>set (present_tables ths). \<forall>row\<in>set tbl. length (row_theta row) = k"
    using uni by (simp add: present_tables_set)
  then have "merge_loop None (map Some (present_tables ths))
               = Inr (Some (concat (present_tables ths)))"
    using ne by (rule merge_loop_None_uniform)
  then show ?thesis
    by (simp add: merge_lrxp_def merge_loop_skips_absent [of None ths])
qed

text \<open>
  Claim C4. When every thread of the list is \<^verbatim>\<open>None\<close>, \<^verbatim>\<open>merge_lrxp\<close> returns \<^verbatim>\<open>None\<close>
  and raises nothing. When a thread is present and the tables have one width,
  \<^verbatim>\<open>merge_lrxp\<close> returns a table that has exactly the rows of the present tables (each as
  often as it occurs in them) and is sorted ascending by its first column: in numpy's
  sorting order, which puts NaN last, and so in the order of the floats when no
  log-likelihood is NaN. A list with one present thread and any number of absent ones
  merges to what that thread alone merges to.
\<close>

theorem merge_lrxp_sorted_concatenation:
  "((\<forall>t\<in>set ths. t = None) \<longrightarrow> merge_lrxp ths = Inr None) \<and>
   ((\<exists>t\<in>set ths. t \<noteq> None) \<and>
    (\<forall>tbl. Some tbl \<in> set ths \<longrightarrow> (\<forall>row\<in>set tbl. length (row_theta row) = k)) \<longrightarrow>
      (\<exists>merged. merge_lrxp ths = Inr (Some merged) \<and>
         mset merged = mset (concat (present_tables ths)) \<and>
         sorted (map (\<lambda>row. sort_rank (row_logl row)) merged) \<and>
         ((\<forall>row\<in>set merged. \<not> isnan (row_logl row)) \<longrightarrow>
            sorted_wrt (\<lambda>a b. fle (row_logl a) (row_logl b)) merged))) \<and>
   (present_tables ths = [t] \<longrightarrow> merge_lrxp ths = merge_lrxp [Some t])"
proof (intro conjI impI)
  assume "\<forall>t\<in>set ths. t = None"
  then show "merge_lrxp ths = Inr None"
    by (rule merge_lrxp_all_absent)
next
  assume a: "(\<exists>t\<in>set ths. t \<noteq> None) \<and>
    (\<forall>tbl. Some tbl \<in> set ths \<longrightarrow> (\<forall>row\<in>set tbl. length (row_theta row) = k))"
  let ?all = "concat (present_tables ths)"
  let ?merged = "map (\<lambda>i. ?all ! i) (np_argsort (map row_logl ?all))"
  have ret: "merge_lrxp ths = Inr (Some ?merged)"
    using a by (intro merge_lrxp_uniform [where k = k]) simp_all
  have ms: "mset ?merged = mset ?all"
    by (rule mset_sorted_table)
  have so: "sorted (map (\<lambda>row. sort_rank (row_logl row)) ?merged)"
    by (rule sorted_sorted_table)
  have "(\<forall>row\<in>set ?merged. \<not> isnan (row_logl row)) \<longrightarrow>
          sorted_wrt (\<lambda>a b. fle (row_logl a) (row_logl b)) ?merged"
    using so by (blast intro: sorted_rank_imp_sorted_fle)
  with ret ms so
  show "\<exists>merged. merge_lrxp ths = Inr (Some merged) \<and>
         mset merged = mset (concat (present_tables ths)) \<and>
         sorted (map (\<lambda>row. sort_rank (row_logl row)) merged) \<and>
         ((\<forall>row\<in>set merged. \<not> isnan (row_logl row)) \<longrightarrow>
            sorted_wrt (\<lambda>a b. fle (row_logl a) (row_logl b)) merged)"
    by blast
next
  assume "present_tables ths = [t]"
  then show "merge_lrxp ths = merge_lrxp [Some t]"
    using merge_lrxp_present [of ths] by simp
qed

theorem merge_lrxp_sorted_concatenation_witness:
  "merge_lrxp [None, None] = Inr None \<and>
   merge_lrxp
     [None,
      Some [\<lparr>row_logl = Fin (- 3), row_r = Fin 2, row_logx = Fin (- 1), row_theta = [Fin 0]\<rparr>,
            \<lparr>row_logl = Fin (- 1), row_r = Fin 1, row_logx = Fin (- 2), row_theta = [Fin 1]\<rparr>],
      None,
      Some [\<lparr>row_logl = Fin (- 2), row_r = Fin 3, row_logx = Fin (- 1), row_theta = [Fin 2]\<rparr>]]
     = Inr (Some
        [\<lparr>row_logl = Fin (- 3), row_r = Fin 2, row_logx = Fin (- 1), row_theta = [Fin 0]\<rparr>,
         \<lparr>row_logl = Fin (- 2), row_r = Fin 3, row_logx = Fin (- 1), row_theta = [Fin 2]\<rparr>,
         \<lparr>row_logl = Fin (- 1), row_r = Fin 1, row_logx = Fin (- 2), row_theta = [Fin 1]\<rparr>]) \<and>
   sorted_wrt (\<lambda>a b. fle (row_logl a) (row_logl b))
        [\<lparr>row_logl = Fin (- 3), row_r = Fin 2, row_logx = Fin (- 1), row_theta = [Fin 0]\<rparr>,
         \<lparr>row_logl = Fin (- 2), row_r = Fin 3, row_logx = Fin (- 1), row_theta = [Fin 2]\<rparr>,
         \<lparr>row_logl = Fin (- 1), row_r = Fin 1, row_logx = Fin (- 2), row_theta = [Fin 1]\<rparr>] \<and>
   merge_lrxp
     [None,
      Some [\<lparr>row_logl = Fin (- 1), row_r = Fin 1, row_logx = Fin (- 2), row_theta = [Fin 1]\<rparr>],
      None, None]
     = merge_lrxp
        [Some [\<lparr>row_logl = Fin (- 1), row_r = Fin 1, row_logx = Fin (- 2), row_theta = [Fin 1]\<rparr>]]"
proof -
  let ?a = "\<lparr>row_logl = Fin (- 3), row_r = Fin 2, row_logx = Fin (- 1), row_theta = [Fin 0]\<rparr>"
  let ?b = "\<lparr>row_logl = Fin (- 1), row_r = Fin 1, row_logx = Fin (- 2), row_theta = [Fin 1]\<rparr>"
  let ?c = "\<lparr>row_logl = Fin (- 2), row_r = Fin 3, row_logx = Fin (- 1), row_theta = [Fin 2]\<rparr>"
  let ?T = "[None, Some [?a, ?b], None, Some [?c]]"
  have none: "merge_lrxp [None, None] = Inr None"
    using merge_lrxp_sorted_concatenation [of "[None, None]" 1] by simp
  have val: "merge_lrxp ?T = Inr (Some [?a, ?c, ?b])"
    by (simp add: merge_lrxp_def np_vstack_def table_width_def np_argsort_def
          less_eq_prod_def)
  have hyp: "(\<exists>t\<in>set ?T. t \<noteq> None) \<and>
             (\<forall>tbl. Some tbl \<in> set ?T \<longrightarrow> (\<forall>row\<in>set tbl. length (row_theta row) = 1))"
    by auto
  obtain merged where m: "merge_lrxp ?T = Inr (Some merged)"
      "(\<forall>row\<in>set merged. \<not> isnan (row_logl row)) \<longrightarrow>
          sorted_wrt (\<lambda>a b. fle (row_logl a) (row_logl b)) merged"
    using merge_lrxp_sorted_concatenation [of ?T 1] hyp by blast
  have "merged = [?a, ?c, ?b]"
    using m(1) val by simp
  with m(2) have srt: "sorted_wrt (\<lambda>a b. fle (row_logl a) (row_logl b)) [?a, ?c, ?b]"
    by simp
  have one: "merge_lrxp [None, Some [?b], None, None] = merge_lrxp [Some [?b]]"
    using merge_lrxp_sorted_concatenation [of "[None, Some [?b], None, None]" _ "[?b]"]
    by simp
  show ?thesis
    using none val srt one by (intro conjI)
qed

section \<open>Properties of \<^verbatim>\<open>get_logw\<close>\<close>

lemma get_logx_length:
  "get_logx nl s g = Inr (logx, g') \<Longrightarrow> length logx = length nl"
  by (auto simp: get_logx_def np_random_random_def rng_take_def length_np_cumsum
           split: sum.splits if_splits)

lemma get_logx_returns:
  assumes "nl \<noteq> []" "\<forall>n\<in>set nl. fgt n (Fin 0)"
  shows "\<exists>logx g'. get_logx nl s g = Inr (logx, g')"
proof -
  obtain m where "np_min nl = Inr m" "fgt m (Fin 0)"
    using assms np_min_pos [of nl] by blast
  then show ?thesis
    by (simp add: get_logx_def np_random_random_def rng_take_def)
qed

lemma logsumexp_two: "logsumexp [a, b] = Inr (logsumexp_value [a, b])"
  by (simp add: logsumexp_value_def logsumexp_def np_amax_def Let_def)

lemma log_subtract_value_eq:
  "log_subtract_value Fin a b = fadd a (np_log (fsub (Fin 1) (np_exp (fsub b a))))"
  by (simp add: log_subtract_value_def log_subtract_def fround_exact)

lemma get_logw_of_logx:
  assumes lx: "get_logx nl s g = Inr (logx, g')"
    and len: "length nl = length logl" and two: "2 \<le> length logl"
  shows "get_logw rnd logl nl s g = Inr (logw_spec rnd logl (Fin 0 # logx), g')"
proof -
  define N where "N = length logl"
  define X where "X = Fin 0 # logx"
  define ls where "ls = map2 (log_subtract_value rnd) (take (length X - 2) X) (drop 2 X)"
  define logw2 where
    "logw2 = map (\<lambda>w. fsub w (np_log (Fin 2))) (ls @ drop (length ls) (replicate N (Fin 0)))"
  define logw3 where "logw3 = logw2[0 := first_weight rnd X]"
  define logw4 where "logw4 = logw3[N - 1 := logw3 ! (N - 2)]"
  have lenx: "length logx = N"
    using get_logx_length [OF lx] len by (simp add: N_def)
  have lenX: "length X = Suc N"
    by (simp add: X_def lenx)
  have N2: "2 \<le> N"
    using two by (simp add: N_def)
  have len_ls: "length ls = N - 1"
    using N2 by (simp add: ls_def lenX)
  have ls_nth: "ls ! i = log_subtract_value rnd (X ! i) (X ! (i + 2))" if "i < N - 1" for i
    using that N2 by (simp add: ls_def lenX add.commute)
  have len2: "length logw2 = N"
    using N2 by (simp add: logw2_def len_ls)
  have w2_nth: "logw2 ! i = trapezium_weight rnd X i" if "i < N - 1" for i
    using that N2
    by (simp add: logw2_def len_ls nth_append ls_nth trapezium_weight_def)
  have first: "logsumexp [logw2 ! 0, fadd (np_log (Fin (1 / 2))) (log_subtract_value rnd (X ! 0) (X ! 1))]
                 = Inr (first_weight rnd X)"
    using N2 w2_nth [of 0] by (simp add: logsumexp_two first_weight_def)
  have len3: "length logw3 = N"
    by (simp add: logw3_def len2)
  have w3_nth: "logw3 ! i = inner_weight rnd X i" if "i < N - 1" for i
    using that N2 w2_nth [of i]
    by (cases "i = 0") (simp_all add: logw3_def len2 inner_weight_def)
  have len4: "length logw4 = N"
    by (simp add: logw4_def len3)
  have w4_nth: "logw4 ! i = volume_weight rnd X N i" if "i < N" for i
  proof (cases "i = N - 1")
    case True
    then show ?thesis
      using that N2 w3_nth [of "N - 2"]
      by (simp add: logw4_def len3 volume_weight_def)
  next
    case False
    then have "i < N - 1" using that by simp
    then show ?thesis
      using False w3_nth [of i] by (simp add: logw4_def volume_weight_def)
  qed
  have res: "map2 fadd logw4 logl = logw_spec rnd logl X"
  proof (rule nth_equalityI)
    show "length (map2 fadd logw4 logl) = length (logw_spec rnd logl X)"
      by (simp add: len4 logw_spec_def N_def)
  next
    fix i assume "i < length (map2 fadd logw4 logl)"
    then have i: "i < N"
      by (simp add: len4 N_def)
    then show "map2 fadd logw4 logl ! i = logw_spec rnd logl X ! i"
      using w4_nth [OF i] by (simp add: len4 logw_spec_def N_def)
  qed
  have ne: "logl \<noteq> []"
    using two by auto
  have "get_logw rnd logl nl s g = Inr (map2 fadd logw4 logl, g')"
    using lx lenx N2 first ne
    unfolding get_logw_def Let_def log_subtract_array_value log_subtract_Inr
      logw4_def logw3_def logw2_def ls_def X_def N_def
    by (simp add: N_def)
  with res show ?thesis
    by (simp add: X_def)
qed

lemma logsumexp_value_pair: "logsumexp_value [Fin a, Fin b] = Fin (ln (exp a + exp b))"
proof -
  define m where "m = max a b"
  have amax: "np_amax [Fin a, Fin b] = Inr (Fin m)"
    by (simp add: np_amax_def fmax2_def m_def max_def)
  have pos: "0 < exp (a - m) + exp (b - m)"
    by (simp add: add_pos_pos)
  have lse: "logsumexp [Fin a, Fin b] = Inr (Fin (ln (exp (a - m) + exp (b - m)) + m))"
    using pos by (simp add: logsumexp_def amax np_sum_def fsub_def Let_def)
  have "exp (a - m) + exp (b - m) = (exp a + exp b) * exp (- m)"
    by (simp add: exp_diff exp_minus field_simps)
  moreover have "0 < exp a + exp b"
    by (simp add: add_pos_pos)
  ultimately have "ln (exp (a - m) + exp (b - m)) + m = ln (exp a + exp b)"
    by (simp add: ln_mult)
  with lse show ?thesis
    by (simp add: logsumexp_value_def)
qed

lemma log_subtract_value_ordered:
  assumes "b < a"
  shows "log_subtract_value Fin (Fin a) (Fin b) = Fin (ln (exp a - exp b))"
proof -
  have pos: "0 < 1 - exp (b - a)"
    using assms by simp
  have "exp a - exp b = exp a * (1 - exp (b - a))"
    by (simp add: exp_diff field_simps)
  then have "a + ln (1 - exp (b - a)) = ln (exp a - exp b)"
    using pos by (simp add: ln_mult)
  then show ?thesis
    using pos by (simp add: log_subtract_value_eq fsub_def)
qed

lemma trapezium_weight_exact:
  assumes "X ! i = Fin a" "X ! (i + 2) = Fin b" "b < a"
  shows "trapezium_weight Fin X i = Fin (ln ((exp a - exp b) / 2))"
proof -
  have "0 < exp a - exp b"
    using assms(3) by simp
  then have "ln ((exp a - exp b) / 2) = ln (exp a - exp b) - ln 2"
    by (simp add: ln_div)
  then show ?thesis
    using assms by (simp add: trapezium_weight_def log_subtract_value_ordered fsub_def)
qed

lemma first_weight_exact:
  assumes "X ! 0 = Fin 0" "X ! 1 = Fin x1" "X ! 2 = Fin x2" "x1 < 0" "x2 < 0"
  shows "first_weight Fin X = Fin (ln (1 - (exp x1 + exp x2) / 2))"
proof -
  have t: "trapezium_weight Fin X 0 = Fin (ln ((1 - exp x2) / 2))"
    using trapezium_weight_exact [of X 0 0 x2] assms by (simp add: eval_nat_numeral)
  have p1: "0 < 1 - exp x1" and p2: "0 < 1 - exp x2"
    using assms by simp_all
  have s: "fadd (np_log (Fin (1 / 2))) (log_subtract_value Fin (X ! 0) (X ! 1))
             = Fin (ln ((1 - exp x1) / 2))"
    using assms p1 by (simp add: log_subtract_value_ordered ln_div)
  have "exp (ln ((1 - exp x2) / 2)) + exp (ln ((1 - exp x1) / 2)) = 1 - (exp x1 + exp x2) / 2"
    using p1 p2 by (simp add: field_simps)
  then show ?thesis
    by (simp only: first_weight_def t s logsumexp_value_pair)
qed

text \<open>
  Claim C2. For \<open>N \<ge> 2\<close> log-likelihoods and as many strictly positive live counts,
  \<^verbatim>\<open>get_logw\<close> returns. With \<open>X = [0, logx...]\<close>, of length \<open>N + 1\<close>, the volume weight
  of the first sample is the \<^verbatim>\<open>logsumexp\<close> of \<open>log_subtract(X[0], X[2]) - log 2\<close> and
  \<open>log 0.5 + log_subtract(X[0], X[1])\<close>, the volume weight of every other sample
  \<open>i \<le> N - 2\<close> is \<open>log_subtract(X[i], X[i+2]) - log 2\<close>, the volume weight of the last
  sample is that of sample \<open>N - 2\<close>, and entry \<open>i\<close> of the result is the volume weight
  of sample \<open>i\<close> plus \<open>logl[i]\<close>. In exact arithmetic \<^verbatim>\<open>logsumexp\<close> of two finite values
  is \<open>log (exp a + exp b)\<close> and \<^verbatim>\<open>log_subtract\<close> of \<open>a > b\<close> is \<open>log (exp a - exp b)\<close>,
  so that the trapezium weight is \<open>log ((exp X[i] - exp X[i+2]) / 2)\<close> and the first
  volume weight is \<open>log (1 - (exp X[1] + exp X[2]) / 2)\<close>.
\<close>

theorem get_logw_trapezium_weights:
  "(length nl = length logl \<and> 2 \<le> length logl \<and> (\<forall>n\<in>set nl. fgt n (Fin 0)) \<longrightarrow>
     (\<exists>logx g' logw.
        get_logx nl sim g = Inr (logx, g') \<and>
        get_logw rnd logl nl sim g = Inr (logw, g') \<and>
        logw = logw_spec rnd logl (Fin 0 # logx) \<and>
        length logw = length logl \<and>
        length (Fin 0 # logx) = length logl + 1 \<and>
        (\<forall>i<length logl.
           logw ! i = fadd (volume_weight rnd (Fin 0 # logx) (length logl) i) (logl ! i)) \<and>
        volume_weight rnd (Fin 0 # logx) (length logl) 0
          = logsumexp_value
              [fsub (log_subtract_value rnd ((Fin 0 # logx) ! 0) ((Fin 0 # logx) ! 2)) (np_log (Fin 2)),
               fadd (np_log (Fin (1 / 2)))
                 (log_subtract_value rnd ((Fin 0 # logx) ! 0) ((Fin 0 # logx) ! 1))] \<and>
        (\<forall>i. 0 < i \<and> i \<le> length logl - 2 \<longrightarrow>
           volume_weight rnd (Fin 0 # logx) (length logl) i
             = fsub (log_subtract_value rnd ((Fin 0 # logx) ! i) ((Fin 0 # logx) ! (i + 2)))
                 (np_log (Fin 2))) \<and>
        volume_weight rnd (Fin 0 # logx) (length logl) (length logl - 1)
          = volume_weight rnd (Fin 0 # logx) (length logl) (length logl - 2))) \<and>
   logsumexp_value [Fin a, Fin b] = Fin (ln (exp a + exp b)) \<and>
   (b < a \<longrightarrow> log_subtract_value Fin (Fin a) (Fin b) = Fin (ln (exp a - exp b))) \<and>
   (X ! i = Fin a \<and> X ! (i + 2) = Fin b \<and> b < a \<longrightarrow>
      trapezium_weight Fin X i = Fin (ln ((exp a - exp b) / 2))) \<and>
   (X ! 0 = Fin 0 \<and> X ! 1 = Fin x1 \<and> X ! 2 = Fin x2 \<and> x1 < 0 \<and> x2 < 0 \<longrightarrow>
      first_weight Fin X = Fin (ln (1 - (exp x1 + exp x2) / 2)))"
proof (intro conjI impI)
  assume a: "length nl = length logl \<and> 2 \<le> length logl \<and> (\<forall>n\<in>set nl. fgt n (Fin 0))"
  then have "nl \<noteq> []" by auto
  then obtain logx g' where lx: "get_logx nl sim g = Inr (logx, g')"
    using a get_logx_returns [of nl sim g] by blast
  let ?X = "Fin 0 # logx"
  let ?N = "length logl"
  have lw: "get_logw rnd logl nl sim g = Inr (logw_spec rnd logl ?X, g')"
    using lx a by (intro get_logw_of_logx) simp_all
  have l1: "length (logw_spec rnd logl ?X) = ?N"
    by (simp add: logw_spec_def)
  have l2: "length ?X = ?N + 1"
    using get_logx_length [OF lx] a by simp
  have nth: "\<forall>i<?N. logw_spec rnd logl ?X ! i = fadd (volume_weight rnd ?X ?N i) (logl ! i)"
    by (simp add: logw_spec_def)
  have v0: "volume_weight rnd ?X ?N 0
          = logsumexp_value
              [fsub (log_subtract_value rnd (?X ! 0) (?X ! 2)) (np_log (Fin 2)),
               fadd (np_log (Fin (1 / 2))) (log_subtract_value rnd (?X ! 0) (?X ! 1))]"
    using a
    by (auto simp: volume_weight_def inner_weight_def first_weight_def trapezium_weight_def)
  have vi: "\<forall>i. 0 < i \<and> i \<le> ?N - 2 \<longrightarrow>
           volume_weight rnd ?X ?N i
             = fsub (log_subtract_value rnd (?X ! i) (?X ! (i + 2))) (np_log (Fin 2))"
    using a by (auto simp: volume_weight_def inner_weight_def trapezium_weight_def)
  have vl: "volume_weight rnd ?X ?N (?N - 1) = volume_weight rnd ?X ?N (?N - 2)"
    using a by (auto simp: volume_weight_def)
  show "\<exists>logx g' logw.
        get_logx nl sim g = Inr (logx, g') \<and>
        get_logw rnd logl nl sim g = Inr (logw, g') \<and>
        logw = logw_spec rnd logl (Fin 0 # logx) \<and>
        length logw = length logl \<and>
        length (Fin 0 # logx) = length logl + 1 \<and>
        (\<forall>i<length logl.
           logw ! i = fadd (volume_weight rnd (Fin 0 # logx) (length logl) i) (logl ! i)) \<and>
        volume_weight rnd (Fin 0 # logx) (length logl) 0
          = logsumexp_value
              [fsub (log_subtract_value rnd ((Fin 0 # logx) ! 0) ((Fin 0 # logx) ! 2)) (np_log (Fin 2)),
               fadd (np_log (Fin (1 / 2)))
                 (log_subtract_value rnd ((Fin 0 # logx) ! 0) ((Fin 0 # logx) ! 1))] \<and>
        (\<forall>i. 0 < i \<and> i \<le> length logl - 2 \<longrightarrow>
           volume_weight rnd (Fin 0 # logx) (length logl) i
             = fsub (log_subtract_value rnd ((Fin 0 # logx) ! i) ((Fin 0 # logx) ! (i + 2)))
                 (np_log (Fin 2))) \<and>
        volume_weight rnd (Fin 0 # logx) (length logl) (length logl - 1)
          = volume_weight rnd (Fin 0 # logx) (length logl) (length logl - 2)"
    using lx lw l1 l2 nth v0 vi vl by blast
next
  show "logsumexp_value [Fin a, Fin b] = Fin (ln (exp a + exp b))"
    by (rule logsumexp_value_pair)
next
  assume "b < a"
  then show "log_subtract_value Fin (Fin a) (Fin b) = Fin (ln (exp a - exp b))"
    by (rule log_subtract_value_ordered)
next
  assume "X ! i = Fin a \<and> X ! (i + 2) = Fin b \<and> b < a"
  then show "trapezium_weight Fin X i = Fin (ln ((exp a - exp b) / 2))"
    by (simp add: trapezium_weight_exact)
next
  assume "X ! 0 = Fin 0 \<and> X ! 1 = Fin x1 \<and> X ! 2 = Fin x2 \<and> x1 < 0 \<and> x2 < 0"
  then show "first_weight Fin X = Fin (ln (1 - (exp x1 + exp x2) / 2))"
    by (simp add: first_weight_exact)
qed

theorem get_logw_trapezium_weights_witness:
  "length [Fin 5, Fin 5, Fin (5::real)] = length [Fin (- 3), Fin (- 2), Fin (- 1)] \<and>
   2 \<le> length [Fin (- 3), Fin (- 2), Fin (- 1)] \<and>
   fgt (Fin 5) (Fin 0) \<and>
   get_logx [Fin 5, Fin 5, Fin 5] False (\<lambda>i. i)
     = Inr ([Fin (- (1 / 5)), Fin (- (2 / 5)), Fin (- (3 / 5))], \<lambda>i. i) \<and>
   get_logw Fin [Fin (- 3), Fin (- 2), Fin (- 1)] [Fin 5, Fin 5, Fin 5] False (\<lambda>i. i)
     = Inr ([Fin (ln (1 - (exp (- (1 / 5)) + exp (- (2 / 5))) / 2) + - 3),
             Fin (ln ((exp (- (1 / 5)) - exp (- (3 / 5))) / 2) + - 2),
             Fin (ln ((exp (- (1 / 5)) - exp (- (3 / 5))) / 2) + - 1)], \<lambda>i. i)"
proof -
  let ?L = "[Fin (- 3), Fin (- 2), Fin (- 1)]"
  let ?NL = "[Fin 5, Fin 5, Fin (5::real)]"
  let ?X = "[Fin 0, Fin (- (1 / 5)), Fin (- (2 / 5)), Fin (- (3 / 5))]"
  have h: "length ?NL = length ?L \<and> 2 \<le> length ?L \<and> (\<forall>n\<in>set ?NL. fgt n (Fin 0))"
    by (simp add: fgt_def)
  have lx: "get_logx ?NL False (\<lambda>i. i)
              = Inr ([Fin (- (1 / 5)), Fin (- (2 / 5)), Fin (- (3 / 5))], \<lambda>i. i)"
    by (simp add: get_logx_def np_min_def fmin2_def fgt_def fpow_m1_def)
  obtain logx g' where r: "get_logx ?NL False (\<lambda>i. i) = Inr (logx, g')"
      "get_logw Fin ?L ?NL False (\<lambda>i. i) = Inr (logw_spec Fin ?L (Fin 0 # logx), g')"
    using get_logw_trapezium_weights [where nl = ?NL and logl = ?L and rnd = Fin
            and sim = False and g = "\<lambda>i. i"] h
    by blast
  have "logx = [Fin (- (1 / 5)), Fin (- (2 / 5)), Fin (- (3 / 5))] \<and> g' = (\<lambda>i. i)"
    using r(1) lx by simp
  with r(2) have lw: "get_logw Fin ?L ?NL False (\<lambda>i. i) = Inr (logw_spec Fin ?L ?X, \<lambda>i. i)"
    by simp
  have f: "first_weight Fin ?X = Fin (ln (1 - (exp (- (1 / 5)) + exp (- (2 / 5))) / 2))"
    using get_logw_trapezium_weights
            [where X = ?X and ?x1.0 = "- (1 / 5)" and ?x2.0 = "- (2 / 5)"]
    by simp
  have t: "trapezium_weight Fin ?X (Suc 0) = Fin (ln ((exp (- (1 / 5)) - exp (- (3 / 5))) / 2))"
    using get_logw_trapezium_weights
            [where X = ?X and i = 1 and a = "- (1 / 5)" and b = "- (3 / 5)"]
    by simp
  have u: "[0..<3] = [0, 1, 2]"
    by (simp add: upt_rec)
  have "logw_spec Fin ?L ?X
     = [Fin (ln (1 - (exp (- (1 / 5)) + exp (- (2 / 5))) / 2) + - 3),
        Fin (ln ((exp (- (1 / 5)) - exp (- (3 / 5))) / 2) + - 2),
        Fin (ln ((exp (- (1 / 5)) - exp (- (3 / 5))) / 2) + - 1)]"
    by (simp add: logw_spec_def u volume_weight_def inner_weight_def f t)
  with h lx lw show ?thesis
    by simp
qed

section \<open>Properties of \<^verbatim>\<open>bootstrap_resample_run\<close>\<close>

lemma np_random_randint_Inr:
  assumes "np_random_randint lo hi n g = Inr (inds, g')"
  shows "0 \<le> n \<and> lo < hi \<and>
         inds = map (\<lambda>j. lo + int (g j mod nat (hi - lo))) [0..<nat n] \<and>
         g' = (\<lambda>i. g (i + nat n))"
  using assms
  by (auto simp: np_random_randint_def rng_take_def split: if_splits)

lemma np_random_randint_range:
  assumes "np_random_randint lo hi n g = Inr (inds, g')"
  shows "length inds = nat n \<and> (\<forall>i\<in>set inds. lo \<le> i \<and> i < hi)"
proof -
  from np_random_randint_Inr [OF assms]
  have lt: "lo < hi"
    and inds: "inds = map (\<lambda>j. lo + int (g j mod nat (hi - lo))) [0..<nat n]"
    by simp_all
  have "int (k mod nat (hi - lo)) < hi - lo" for k
  proof -
    have "k mod nat (hi - lo) < nat (hi - lo)"
      using lt by simp
    then have "int (k mod nat (hi - lo)) < int (nat (hi - lo))"
      by (simp only: of_nat_less_iff)
    then show ?thesis
      using lt by simp
  qed
  then have "\<And>j. lo + int (g j mod nat (hi - lo)) < hi"
    by (simp add: less_diff_eq add.commute)
  then show ?thesis
    using inds by auto
qed

lemma np_random_randint_returns:
  "0 \<le> n \<Longrightarrow> lo < hi \<Longrightarrow> \<exists>inds g'. np_random_randint lo hi n g = Inr (inds, g')"
  by (simp add: np_random_randint_def rng_take_def)

lemma py_index_nonneg:
  "0 \<le> i \<Longrightarrow> py_index xs i = (if i < int (length xs) then Inr (xs ! nat i) else Inl IndexError)"
  by (simp add: py_index_def)

lemma py_index_list_in_range:
  "\<forall>i\<in>set inds. 0 \<le> i \<and> i < int (length xs) \<Longrightarrow>
     py_index_list xs inds = Inr (map (\<lambda>i. xs ! nat i) inds)"
  unfolding py_index_list_def
  by (rule collect_map_Inr) (simp add: py_index_nonneg)

lemma py_index_list_Inr:
  assumes "py_index_list xs inds = Inr ys" and "\<forall>i\<in>set inds. 0 \<le> i"
  shows "ys = map (\<lambda>i. xs ! nat i) inds \<and> (\<forall>i\<in>set inds. i < int (length xs))"
  using assms unfolding py_index_list_def
proof (induction inds arbitrary: ys)
  case Nil
  then show ?case by simp
next
  case (Cons i inds)
  then show ?case
    by (auto simp: py_index_nonneg split: if_splits sum.splits)
qed

lemma bootstrap_resample_run_Inr:
  assumes "bootstrap_resample_run run sep g = Inr (run', g')"
  shows "\<exists>inds lmm.
           bootstrap_inds run sep g = Inr (inds, g') \<and>
           thread_logl_min_max run = Some lmm \<and>
           py_index_list (threads run) inds = Inr (threads run') \<and>
           py_index_list lmm inds = Inr (the (thread_logl_min_max run')) \<and>
           thread_logl_min_max run' \<noteq> None \<and>
           nlive_array run' = None \<and> settings run' = settings run"
  using assms
  by (auto simp: bootstrap_resample_run_def split: sum.splits option.splits prod.splits)

lemma bootstrap_inds_stratified:
  assumes "bootstrap_inds run True g = Inr (inds, g')" and "dynamic_goal (settings run) \<noteq> None"
  shows "\<exists>inds1 inds2 g1.
           np_random_randint 0 (nlive_1 (settings run)) (nlive_1 (settings run)) g
             = Inr (inds1, g1) \<and>
           np_random_randint (nlive_1 (settings run)) (int (length (threads run)))
               (int (length (threads run)) - nlive_1 (settings run)) g1 = Inr (inds2, g') \<and>
           inds = inds1 @ inds2"
  using assms
  by (auto simp: bootstrap_inds_def Let_def split: sum.splits prod.splits)

text \<open>
  Claim C7. On a dynamic run, with \<^verbatim>\<open>sample_ninit_sep\<close> true, whenever
  \<^verbatim>\<open>bootstrap_resample_run\<close> returns, its index vector is \<open>n_init\<close> draws from
  \<open>[0, n_init)\<close> followed by \<open>n_threads - n_init\<close> draws from \<open>[n_init, n_threads)\<close>;
  the two groups are made from different draws of the random source (the first
  \<open>n_init\<close> and the \<open>n_threads - n_init\<close> after them), and the threads and the
  interval records of the new run are the old ones at these indices, in this order.
  The function does return when \<open>0 < n_init < n_threads\<close> and there is one interval
  record for each thread.
\<close>

theorem bootstrap_resample_run_stratified_draws:
  "(dynamic_goal (settings run) \<noteq> None \<and> bootstrap_resample_run run True g = Inr (run', g')
      \<longrightarrow>
      (\<exists>inds1 inds2 lmm.
         inds1 = map (\<lambda>j. int (g j mod nat (nlive_1 (settings run))))
                   [0..<nat (nlive_1 (settings run))] \<and>
         inds2 = map (\<lambda>j. nlive_1 (settings run)
                          + int (g (j + nat (nlive_1 (settings run)))
                                   mod nat (int (length (threads run)) - nlive_1 (settings run))))
                   [0..<nat (int (length (threads run)) - nlive_1 (settings run))] \<and>
         length inds1 = nat (nlive_1 (settings run)) \<and>
         (\<forall>i\<in>set inds1. 0 \<le> i \<and> i < nlive_1 (settings run)) \<and>
         length inds2 = nat (int (length (threads run)) - nlive_1 (settings run)) \<and>
         (\<forall>i\<in>set inds2. nlive_1 (settings run) \<le> i \<and> i < int (length (threads run))) \<and>
         thread_logl_min_max run = Some lmm \<and>
         threads run' = map (\<lambda>i. threads run ! nat i) (inds1 @ inds2) \<and>
         thread_logl_min_max run' = Some (map (\<lambda>i. lmm ! nat i) (inds1 @ inds2)) \<and>
         settings run' = settings run)) \<and>
   (dynamic_goal (settings run) \<noteq> None \<and> 0 < nlive_1 (settings run) \<and>
    nlive_1 (settings run) < int (length (threads run)) \<and>
    thread_logl_min_max run = Some lmm0 \<and> length lmm0 = length (threads run)
      \<longrightarrow> (\<exists>run' g'. bootstrap_resample_run run True g = Inr (run', g')))"
proof (intro conjI impI)
  let ?ninit = "nlive_1 (settings run)"
  let ?n = "int (length (threads run))"
  assume a: "dynamic_goal (settings run) \<noteq> None \<and>
             bootstrap_resample_run run True g = Inr (run', g')"
  then obtain inds lmm where
      bi: "bootstrap_inds run True g = Inr (inds, g')" and
      lm: "thread_logl_min_max run = Some lmm" and
      pt: "py_index_list (threads run) inds = Inr (threads run')" and
      pl: "py_index_list lmm inds = Inr (the (thread_logl_min_max run'))" and
      sm: "thread_logl_min_max run' \<noteq> None" and
      st: "settings run' = settings run"
    using bootstrap_resample_run_Inr [of run True g run' g'] by blast
  from bi a obtain inds1 inds2 g1 where
      d1: "np_random_randint 0 ?ninit ?ninit g = Inr (inds1, g1)" and
      d2: "np_random_randint ?ninit ?n (?n - ?ninit) g1 = Inr (inds2, g')" and
      cat: "inds = inds1 @ inds2"
    using bootstrap_inds_stratified [of run g inds g'] by blast
  have e1: "inds1 = map (\<lambda>j. int (g j mod nat ?ninit)) [0..<nat ?ninit]"
    and g1: "g1 = (\<lambda>i. g (i + nat ?ninit))"
    using np_random_randint_Inr [OF d1] by simp_all
  have e2: "inds2 = map (\<lambda>j. ?ninit + int (g (j + nat ?ninit) mod nat (?n - ?ninit)))
                      [0..<nat (?n - ?ninit)]"
    using np_random_randint_Inr [OF d2] by (simp add: g1)
  have r1: "length inds1 = nat ?ninit \<and> (\<forall>i\<in>set inds1. 0 \<le> i \<and> i < ?ninit)"
    using np_random_randint_range [OF d1] .
  have r2: "length inds2 = nat (?n - ?ninit) \<and> (\<forall>i\<in>set inds2. ?ninit \<le> i \<and> i < ?n)"
    using np_random_randint_range [OF d2] .
  have "0 \<le> ?ninit"
    using np_random_randint_Inr [OF d1] by simp
  then have nonneg: "\<forall>i\<in>set inds. 0 \<le> i"
    using r1 r2 cat by auto
  have t: "threads run' = map (\<lambda>i. threads run ! nat i) (inds1 @ inds2)"
    using py_index_list_Inr [OF pt nonneg] cat by simp
  have "the (thread_logl_min_max run') = map (\<lambda>i. lmm ! nat i) (inds1 @ inds2)"
    using py_index_list_Inr [OF pl nonneg] cat by simp
  with sm have l: "thread_logl_min_max run' = Some (map (\<lambda>i. lmm ! nat i) (inds1 @ inds2))"
    by auto
  show "\<exists>inds1 inds2 lmm.
         inds1 = map (\<lambda>j. int (g j mod nat (nlive_1 (settings run))))
                   [0..<nat (nlive_1 (settings run))] \<and>
         inds2 = map (\<lambda>j. nlive_1 (settings run)
                          + int (g (j + nat (nlive_1 (settings run)))
                                   mod nat (int (length (threads run)) - nlive_1 (settings run))))
                   [0..<nat (int (length (threads run)) - nlive_1 (settings run))] \<and>
         length inds1 = nat (nlive_1 (settings run)) \<and>
         (\<forall>i\<in>set inds1. 0 \<le> i \<and> i < nlive_1 (settings run)) \<and>
         length inds2 = nat (int (length (threads run)) - nlive_1 (settings run)) \<and>
         (\<forall>i\<in>set inds2. nlive_1 (settings run) \<le> i \<and> i < int (length (threads run))) \<and>
         thread_logl_min_max run = Some lmm \<and>
         threads run' = map (\<lambda>i. threads run ! nat i) (inds1 @ inds2) \<and>
         thread_logl_min_max run' = Some (map (\<lambda>i. lmm ! nat i) (inds1 @ inds2)) \<and>
         settings run' = settings run"
    using e1 e2 r1 r2 lm t l st by blast
next
  let ?ninit = "nlive_1 (settings run)"
  let ?n = "int (length (threads run))"
  assume b: "dynamic_goal (settings run) \<noteq> None \<and> 0 < nlive_1 (settings run) \<and>
    nlive_1 (settings run) < int (length (threads run)) \<and>
    thread_logl_min_max run = Some lmm0 \<and> length lmm0 = length (threads run)"
  obtain inds1 g1 where d1: "np_random_randint 0 ?ninit ?ninit g = Inr (inds1, g1)"
    using b np_random_randint_returns [of ?ninit 0 ?ninit g] by auto
  obtain inds2 g2 where d2: "np_random_randint ?ninit ?n (?n - ?ninit) g1 = Inr (inds2, g2)"
    using b np_random_randint_returns [of "?n - ?ninit" ?ninit ?n g1] by auto
  have bi: "bootstrap_inds run True g = Inr (inds1 @ inds2, g2)"
    using b d1 d2 by (simp add: bootstrap_inds_def)
  have "\<forall>i\<in>set (inds1 @ inds2). 0 \<le> i \<and> i < ?n"
    using np_random_randint_range [OF d1] np_random_randint_range [OF d2] b by auto
  then have "py_index_list (threads run) (inds1 @ inds2)
               = Inr (map (\<lambda>i. threads run ! nat i) (inds1 @ inds2))"
    and "py_index_list lmm0 (inds1 @ inds2) = Inr (map (\<lambda>i. lmm0 ! nat i) (inds1 @ inds2))"
    using b by (simp_all add: py_index_list_in_range)
  with bi b show "\<exists>run' g'. bootstrap_resample_run run True g = Inr (run', g')"
    by (simp add: bootstrap_resample_run_def)
qed

theorem bootstrap_resample_run_stratified_draws_witness:
  "dynamic_goal (settings
     \<lparr>threads = [Some [\<lparr>row_logl = Fin (- 3), row_r = Fin 1, row_logx = Fin (- 1), row_theta = []\<rparr>],
                 None,
                 Some [\<lparr>row_logl = Fin (- 1), row_r = Fin 2, row_logx = Fin (- 2), row_theta = []\<rparr>]],
      thread_logl_min_max = Some [(NaN, Fin (- 3), Fin 1), (Fin (- 3), Fin (- 2), Fin 1),
                                  (Fin (- 3), Fin (- 1), Fin 1)],
      nlive_array = None,
      settings = \<lparr>dynamic_goal = Some 1, nlive = 1, nlive_1 = 1\<rparr>\<rparr>) \<noteq> None \<and>
   bootstrap_resample_run
     \<lparr>threads = [Some [\<lparr>row_logl = Fin (- 3), row_r = Fin 1, row_logx = Fin (- 1), row_theta = []\<rparr>],
                 None,
                 Some [\<lparr>row_logl = Fin (- 1), row_r = Fin 2, row_logx = Fin (- 2), row_theta = []\<rparr>]],
      thread_logl_min_max = Some [(NaN, Fin (- 3), Fin 1), (Fin (- 3), Fin (- 2), Fin 1),
                                  (Fin (- 3), Fin (- 1), Fin 1)],
      nlive_array = None,
      settings = \<lparr>dynamic_goal = Some 1, nlive = 1, nlive_1 = 1\<rparr>\<rparr>
     True (\<lambda>i. i)
   = Inr (\<lparr>threads = [Some [\<lparr>row_logl = Fin (- 3), row_r = Fin 1, row_logx = Fin (- 1), row_theta = []\<rparr>],
                       Some [\<lparr>row_logl = Fin (- 1), row_r = Fin 2, row_logx = Fin (- 2), row_theta = []\<rparr>],
                       None],
            thread_logl_min_max = Some [(NaN, Fin (- 3), Fin 1), (Fin (- 3), Fin (- 1), Fin 1),
                                        (Fin (- 3), Fin (- 2), Fin 1)],
            nlive_array = None,
            settings = \<lparr>dynamic_goal = Some 1, nlive = 1, nlive_1 = 1\<rparr>\<rparr>,
          \<lambda>i. i + 3) \<and>
   (\<exists>inds1 inds2.
      inds1 = [0] \<and> inds2 = [2, 1] \<and>
      [Some [\<lparr>row_logl = Fin (- 3), row_r = Fin 1, row_logx = Fin (- 1), row_theta = []\<rparr>],
       Some [\<lparr>row_logl = Fin (- 1), row_r = Fin 2, row_logx = Fin (- 2), row_theta = []\<rparr>],
       None]
      = map (\<lambda>i. [Some [\<lparr>row_logl = Fin (- 3), row_r = Fin 1, row_logx = Fin (- 1), row_theta = []\<rparr>],
                    None,
                    Some [\<lparr>row_logl = Fin (- 1), row_r = Fin 2, row_logx = Fin (- 2), row_theta = []\<rparr>]]
                   ! nat i) (inds1 @ inds2))"
proof -
  let ?t0 = "Some [\<lparr>row_logl = Fin (- 3), row_r = Fin 1, row_logx = Fin (- 1), row_theta = []\<rparr>]"
  let ?t2 = "Some [\<lparr>row_logl = Fin (- 1), row_r = Fin 2, row_logx = Fin (- 2), row_theta = []\<rparr>]"
  let ?st = "\<lparr>dynamic_goal = Some 1, nlive = 1, nlive_1 = 1\<rparr>"
  let ?R = "\<lparr>threads = [?t0, None, ?t2],
      thread_logl_min_max = Some [(NaN, Fin (- 3), Fin 1), (Fin (- 3), Fin (- 2), Fin 1),
                                  (Fin (- 3), Fin (- 1), Fin 1)],
      nlive_array = None, settings = ?st\<rparr>"
  let ?R' = "\<lparr>threads = [?t0, ?t2, None],
      thread_logl_min_max = Some [(NaN, Fin (- 3), Fin 1), (Fin (- 3), Fin (- 1), Fin 1),
                                  (Fin (- 3), Fin (- 2), Fin 1)],
      nlive_array = None, settings = ?st\<rparr>"
  have u2: "[0..<2] = [0, 1]"
    by (simp add: upt_rec)
  have dyn: "dynamic_goal (settings ?R) \<noteq> None"
    by simp
  have ret: "bootstrap_resample_run ?R True (\<lambda>i. i) = Inr (?R', \<lambda>i. i + 3)"
    by (simp add: bootstrap_resample_run_def bootstrap_inds_def np_random_randint_def
          rng_take_def py_index_list_def py_index_def u2 add.commute fun_eq_iff)
  obtain inds1 inds2 where
      i1: "inds1 = map (\<lambda>j. int ((\<lambda>i. i) j mod nat (nlive_1 (settings ?R))))
                     [0..<nat (nlive_1 (settings ?R))]" and
      i2: "inds2 = map (\<lambda>j. nlive_1 (settings ?R)
                          + int ((\<lambda>i. i) (j + nat (nlive_1 (settings ?R)))
                                   mod nat (int (length (threads ?R)) - nlive_1 (settings ?R))))
                   [0..<nat (int (length (threads ?R)) - nlive_1 (settings ?R))]" and
      th: "threads ?R' = map (\<lambda>i. threads ?R ! nat i) (inds1 @ inds2)"
    using bootstrap_resample_run_stratified_draws [of ?R "\<lambda>i. i" ?R' "\<lambda>i. i + 3"] dyn ret
    by blast
  have "inds1 = [0]"
    using i1 by simp
  moreover have "inds2 = [2, 1]"
    using i2 by (simp add: u2)
  ultimately show ?thesis
    using dyn ret th by simp
qed

section \<open>Bootstrap resampling of a run without interval records\<close>

lemma bootstrap_resample_run_no_records_fails:
  assumes "thread_logl_min_max run = None"
  shows "\<exists>e. bootstrap_resample_run run sep g = Inl e"
  using assms
  by (auto simp: bootstrap_resample_run_def split: sum.splits prod.splits)

lemma bootstrap_inds_in_range:
  assumes "bootstrap_inds run sep g = Inr (inds, g')"
  shows "\<forall>i\<in>set inds. 0 \<le> i \<and> i < int (length (threads run))"
proof (cases "dynamic_goal (settings run) \<noteq> None \<and> sep")
  case True
  then obtain inds1 inds2 g1 where
      d1: "np_random_randint 0 (nlive_1 (settings run)) (nlive_1 (settings run)) g
             = Inr (inds1, g1)" and
      d2: "np_random_randint (nlive_1 (settings run)) (int (length (threads run)))
               (int (length (threads run)) - nlive_1 (settings run)) g1 = Inr (inds2, g')" and
      cat: "inds = inds1 @ inds2"
    using assms bootstrap_inds_stratified [of run g inds g'] by auto
  have "0 \<le> nlive_1 (settings run)" "nlive_1 (settings run) < int (length (threads run))"
    using np_random_randint_Inr [OF d1] np_random_randint_Inr [OF d2] by simp_all
  then show ?thesis
    using np_random_randint_range [OF d1] np_random_randint_range [OF d2] cat by auto
next
  case False
  then have "np_random_randint 0 (int (length (threads run))) (int (length (threads run))) g
               = Inr (inds, g')"
    using assms by (auto simp: bootstrap_inds_def Let_def)
  then show ?thesis
    using np_random_randint_range by blast
qed

lemma bootstrap_resample_run_KeyError:
  assumes "thread_logl_min_max run = None" and "bootstrap_inds run sep g = Inr (inds, g')"
  shows "bootstrap_resample_run run sep g = Inl (KeyError ''thread_logl_min_max'')"
proof -
  have "py_index_list (threads run) inds = Inr (map (\<lambda>i. threads run ! nat i) inds)"
    using bootstrap_inds_in_range [OF assms(2)] by (rule py_index_list_in_range)
  with assms show ?thesis
    by (simp add: bootstrap_resample_run_def)
qed

lemma bootstrap_inds_plain_returns:
  assumes "threads run \<noteq> []" and "dynamic_goal (settings run) = None \<or> \<not> sep"
  shows "\<exists>inds g'. bootstrap_inds run sep g = Inr (inds, g')"
proof -
  have "0 < int (length (threads run))"
    using assms(1) by simp
  then have "\<exists>inds g'. np_random_randint 0 (int (length (threads run)))
                          (int (length (threads run))) g = Inr (inds, g')"
    by (intro np_random_randint_returns) simp_all
  with assms(2) show ?thesis
    by (auto simp: bootstrap_inds_def Let_def)
qed

lemma bootstrap_inds_stratified_returns:
  assumes "dynamic_goal (settings run) \<noteq> None" and "0 < nlive_1 (settings run)"
    and "nlive_1 (settings run) < int (length (threads run))"
  shows "\<exists>inds g'. bootstrap_inds run True g = Inr (inds, g')"
proof -
  obtain inds1 g1 where
    d1: "np_random_randint 0 (nlive_1 (settings run)) (nlive_1 (settings run)) g = Inr (inds1, g1)"
    using assms np_random_randint_returns [of "nlive_1 (settings run)" 0 "nlive_1 (settings run)" g]
    by auto
  obtain inds2 g2 where
    d2: "np_random_randint (nlive_1 (settings run)) (int (length (threads run)))
           (int (length (threads run)) - nlive_1 (settings run)) g1 = Inr (inds2, g2)"
    using assms
      np_random_randint_returns [of "int (length (threads run)) - nlive_1 (settings run)"
                                    "nlive_1 (settings run)" "int (length (threads run))" g1]
    by auto
  show ?thesis
    using assms d1 d2 by (simp add: bootstrap_inds_def)
qed

lemma bootstrap_loop_no_records_fails:
  assumes "thread_logl_min_max run = None" and "is \<noteq> []"
  shows "\<exists>e. bootstrap_loop rnd run ests is bs g = Inl e"
proof (cases "is")
  case Nil
  with assms show ?thesis by simp
next
  case (Cons i rest)
  obtain e where "bootstrap_resample_run run True g = Inl e"
    using bootstrap_resample_run_no_records_fails [OF assms(1)] by blast
  with Cons show ?thesis by simp
qed

lemma run_std_bootstrap_no_records_fails:
  assumes "thread_logl_min_max run = None" and "n \<noteq> 0"
  shows "\<exists>e. run_std_bootstrap rnd run ests n g = Inl e"
proof (cases "n < 0")
  case True
  then show ?thesis by (simp add: run_std_bootstrap_def np_zeros2_def)
next
  case False
  with assms have "[0..<nat n] \<noteq> []" by simp
  then obtain e where
    "bootstrap_loop rnd run ests [0..<nat n] (replicate (length ests) (replicate (nat n) (Fin 0))) g
       = Inl e"
    using bootstrap_loop_no_records_fails [OF assms(1)] by blast
  with False show ?thesis by (simp add: run_std_bootstrap_def np_zeros2_def)
qed

lemma assertion_passes_nonzero:
  assumes "rounding rnd" and "fgt (fround rnd (fmul x (Fin (of_int n)))) (Fin 1)"
  shows "n \<noteq> 0"
proof
  assume "n = 0"
  moreover have "rnd 0 = Fin 0"
    using assms(1) by (simp add: rounding_def)
  ultimately have "\<not> fgt (fround rnd (fmul x (Fin (of_int n)))) (Fin 1)"
    by (cases x) (simp_all add: fgt_def inf_of_sign_def fround_def)
  with assms(2) show False by simp
qed

lemma run_ci_bootstrap_no_records_fails:
  assumes "thread_logl_min_max run = None" and r: "rounding rnd"
  shows "\<exists>e. run_ci_bootstrap rnd run ests n c g = Inl e"
proof (cases "fgt (fround rnd (fmul (py_min c (fround rnd (fsub (Fin 1) c))) (Fin (of_int n))))
                (Fin 1)")
  case False
  then show ?thesis by (simp add: run_ci_bootstrap_def)
next
  case True
  with r have n0: "n \<noteq> 0" by (rule assertion_passes_nonzero)
  show ?thesis
  proof (cases "n < 0")
    case True
    with \<open>fgt _ _\<close> show ?thesis by (simp add: run_ci_bootstrap_def np_zeros2_def)
  next
    case False
    with n0 have "[0..<nat n] \<noteq> []" by simp
    then obtain e where
      "bootstrap_loop rnd run ests [0..<nat n] (replicate (length ests) (replicate (nat n) (Fin 0))) g
         = Inl e"
      using bootstrap_loop_no_records_fails [OF assms(1)] by blast
    with False True show ?thesis by (simp add: run_ci_bootstrap_def np_zeros2_def)
  qed
qed

lemma bootstrap_loop_first_error:
  assumes "bootstrap_resample_run run True g = Inl e" and "is \<noteq> []"
  shows "bootstrap_loop rnd run ests is bs g = Inl e"
  using assms by (cases "is") simp_all

lemma fixed_run_KeyError:
  assumes "thread_logl_min_max run = None" "threads run \<noteq> []"
    "dynamic_goal (settings run) = None"
  shows "bootstrap_resample_run run sep g = Inl (KeyError ''thread_logl_min_max'')"
proof -
  obtain inds g' where "bootstrap_inds run sep g = Inr (inds, g')"
    using assms bootstrap_inds_plain_returns [of run sep g] by blast
  with assms(1) show ?thesis
    by (rule bootstrap_resample_run_KeyError)
qed

text \<open>
  Claim C10. On a run whose dictionary has no key \<^verbatim>\<open>thread_logl_min_max\<close>,
  \<^verbatim>\<open>bootstrap_resample_run\<close> never returns, on either branch. Once the indices are
  drawn (the run has a thread and, on the stratified branch, \<open>0 < n_init < n_threads\<close>)
  the error is the \<^verbatim>\<open>KeyError\<close> of the missing key. So \<^verbatim>\<open>run_std_bootstrap\<close> with
  \<open>n_simulate \<noteq> 0\<close> and \<^verbatim>\<open>run_ci_bootstrap\<close> fail on such a run; on a run with a fixed
  number of live points and at least one thread they fail with that \<^verbatim>\<open>KeyError\<close>, the
  latter when its assertion on \<open>n_simulate\<close> passes. This holds whatever the rounding
  of the floats is, the exact arithmetic included.
\<close>

theorem bootstrap_without_interval_records_fails:
  "(thread_logl_min_max run = None \<longrightarrow> (\<exists>e. bootstrap_resample_run run sep g = Inl e)) \<and>
   (thread_logl_min_max run = None \<and> threads run \<noteq> [] \<and>
    (dynamic_goal (settings run) = None \<or> \<not> sep)
      \<longrightarrow> bootstrap_resample_run run sep g = Inl (KeyError ''thread_logl_min_max'')) \<and>
   (thread_logl_min_max run = None \<and> dynamic_goal (settings run) \<noteq> None \<and>
    0 < nlive_1 (settings run) \<and> nlive_1 (settings run) < int (length (threads run))
      \<longrightarrow> bootstrap_resample_run run True g = Inl (KeyError ''thread_logl_min_max'')) \<and>
   (thread_logl_min_max run = None \<and> n \<noteq> 0
      \<longrightarrow> (\<exists>e. run_std_bootstrap rnd run ests n g = Inl e)) \<and>
   (rounding rnd \<and> thread_logl_min_max run = None
      \<longrightarrow> (\<exists>e. run_ci_bootstrap rnd run ests n c g = Inl e)) \<and>
   (thread_logl_min_max run = None \<and> threads run \<noteq> [] \<and>
    dynamic_goal (settings run) = None \<and> 0 < n
      \<longrightarrow> run_std_bootstrap rnd run ests n g = Inl (KeyError ''thread_logl_min_max'')) \<and>
   (thread_logl_min_max run = None \<and> threads run \<noteq> [] \<and>
    dynamic_goal (settings run) = None \<and> 0 < n \<and>
    fgt (fround rnd (fmul (py_min c (fround rnd (fsub (Fin 1) c))) (Fin (of_int n)))) (Fin 1)
      \<longrightarrow> run_ci_bootstrap rnd run ests n c g = Inl (KeyError ''thread_logl_min_max''))"
proof (intro conjI impI)
  assume "thread_logl_min_max run = None"
  then show "\<exists>e. bootstrap_resample_run run sep g = Inl e"
    by (rule bootstrap_resample_run_no_records_fails)
next
  assume a: "thread_logl_min_max run = None \<and> threads run \<noteq> [] \<and>
    (dynamic_goal (settings run) = None \<or> \<not> sep)"
  then obtain inds g' where "bootstrap_inds run sep g = Inr (inds, g')"
    using bootstrap_inds_plain_returns [of run sep g] by blast
  with a show "bootstrap_resample_run run sep g = Inl (KeyError ''thread_logl_min_max'')"
    by (simp add: bootstrap_resample_run_KeyError)
next
  assume a: "thread_logl_min_max run = None \<and> dynamic_goal (settings run) \<noteq> None \<and>
    0 < nlive_1 (settings run) \<and> nlive_1 (settings run) < int (length (threads run))"
  then obtain inds g' where "bootstrap_inds run True g = Inr (inds, g')"
    using bootstrap_inds_stratified_returns [of run g] by blast
  with a show "bootstrap_resample_run run True g = Inl (KeyError ''thread_logl_min_max'')"
    by (simp add: bootstrap_resample_run_KeyError)
next
  assume "thread_logl_min_max run = None \<and> n \<noteq> 0"
  then show "\<exists>e. run_std_bootstrap rnd run ests n g = Inl e"
    by (simp add: run_std_bootstrap_no_records_fails)
next
  assume "rounding rnd \<and> thread_logl_min_max run = None"
  then show "\<exists>e. run_ci_bootstrap rnd run ests n c g = Inl e"
    by (simp add: run_ci_bootstrap_no_records_fails)
next
  assume a: "thread_logl_min_max run = None \<and> threads run \<noteq> [] \<and>
    dynamic_goal (settings run) = None \<and> 0 < n"
  then have "bootstrap_resample_run run True g = Inl (KeyError ''thread_logl_min_max'')"
    by (simp add: fixed_run_KeyError)
  moreover have "[0..<nat n] \<noteq> []"
    using a by simp
  ultimately have "bootstrap_loop rnd run ests [0..<nat n]
      (replicate (length ests) (replicate (nat n) (Fin 0))) g
        = Inl (KeyError ''thread_logl_min_max'')"
    by (rule bootstrap_loop_first_error)
  then show "run_std_bootstrap rnd run ests n g = Inl (KeyError ''thread_logl_min_max'')"
    using a by (simp add: run_std_bootstrap_def np_zeros2_def)
next
  assume a: "thread_logl_min_max run = None \<and> threads run \<noteq> [] \<and>
    dynamic_goal (settings run) = None \<and> 0 < n \<and>
    fgt (fround rnd (fmul (py_min c (fround rnd (fsub (Fin 1) c))) (Fin (of_int n)))) (Fin 1)"
  then have "bootstrap_resample_run run True g = Inl (KeyError ''thread_logl_min_max'')"
    by (simp add: fixed_run_KeyError)
  moreover have "[0..<nat n] \<noteq> []"
    using a by simp
  ultimately have "bootstrap_loop rnd run ests [0..<nat n]
      (replicate (length ests) (replicate (nat n) (Fin 0))) g
        = Inl (KeyError ''thread_logl_min_max'')"
    by (rule bootstrap_loop_first_error)
  then show "run_ci_bootstrap rnd run ests n c g = Inl (KeyError ''thread_logl_min_max'')"
    using a by (simp add: run_ci_bootstrap_def np_zeros2_def)
qed

theorem bootstrap_without_interval_records_fails_witness:
  "thread_logl_min_max
     \<lparr>threads = [Some [\<lparr>row_logl = Fin (- 1), row_r = Fin 1, row_logx = Fin (- 1), row_theta = []\<rparr>]],
      thread_logl_min_max = None, nlive_array = None,
      settings = \<lparr>dynamic_goal = None, nlive = 1, nlive_1 = 1\<rparr>\<rparr> = None \<and>
   bootstrap_resample_run
     \<lparr>threads = [Some [\<lparr>row_logl = Fin (- 1), row_r = Fin 1, row_logx = Fin (- 1), row_theta = []\<rparr>]],
      thread_logl_min_max = None, nlive_array = None,
      settings = \<lparr>dynamic_goal = None, nlive = 1, nlive_1 = 1\<rparr>\<rparr>
     True (\<lambda>i. i) = Inl (KeyError ''thread_logl_min_max'') \<and>
   run_std_bootstrap Fin
     \<lparr>threads = [Some [\<lparr>row_logl = Fin (- 1), row_r = Fin 1, row_logx = Fin (- 1), row_theta = []\<rparr>]],
      thread_logl_min_max = None, nlive_array = None,
      settings = \<lparr>dynamic_goal = None, nlive = 1, nlive_1 = 1\<rparr>\<rparr>
     [] 5 (\<lambda>i. i) = Inl (KeyError ''thread_logl_min_max'') \<and>
   rounding Fin \<and>
   isl (run_ci_bootstrap Fin
     \<lparr>threads = [Some [\<lparr>row_logl = Fin (- 1), row_r = Fin 1, row_logx = Fin (- 1), row_theta = []\<rparr>]],
      thread_logl_min_max = None, nlive_array = None,
      settings = \<lparr>dynamic_goal = None, nlive = 1, nlive_1 = 1\<rparr>\<rparr>
     [] 0 (Fin 0.95) (\<lambda>i. i)) \<and>
   fgt (fround Fin (fmul (py_min (Fin 0.95) (fround Fin (fsub (Fin 1) (Fin 0.95)))) (Fin (of_int 100))))
     (Fin 1) \<and>
   run_ci_bootstrap Fin
     \<lparr>threads = [Some [\<lparr>row_logl = Fin (- 1), row_r = Fin 1, row_logx = Fin (- 1), row_theta = []\<rparr>]],
      thread_logl_min_max = None, nlive_array = None,
      settings = \<lparr>dynamic_goal = None, nlive = 1, nlive_1 = 1\<rparr>\<rparr>
     [] 100 (Fin 0.95) (\<lambda>i. i) = Inl (KeyError ''thread_logl_min_max'')"
proof -
  let ?R = "\<lparr>threads = [Some [\<lparr>row_logl = Fin (- 1), row_r = Fin 1, row_logx = Fin (- 1), row_theta = []\<rparr>]],
      thread_logl_min_max = None, nlive_array = None,
      settings = \<lparr>dynamic_goal = None, nlive = 1, nlive_1 = 1\<rparr>\<rparr>"
  have h: "thread_logl_min_max ?R = None" "threads ?R \<noteq> []" "dynamic_goal (settings ?R) = None"
    by simp_all
  have p: "fgt (fround Fin (fmul (py_min (Fin 0.95) (fround Fin (fsub (Fin 1) (Fin 0.95)))) (Fin (of_int 100))))
     (Fin 1)"
    by (simp add: fround_exact py_min_def fsub_def fgt_def)
  have a: "bootstrap_resample_run ?R True (\<lambda>i. i) = Inl (KeyError ''thread_logl_min_max'')"
    using bootstrap_without_interval_records_fails [where run = ?R and sep = True and g = "\<lambda>i. i"] h
    by blast
  have b: "run_std_bootstrap Fin ?R [] 5 (\<lambda>i. i) = Inl (KeyError ''thread_logl_min_max'')"
    using bootstrap_without_interval_records_fails
            [where run = ?R and g = "\<lambda>i. i" and n = 5 and ests = "[]" and rnd = Fin] h
    by simp
  have "\<exists>e. run_ci_bootstrap Fin ?R [] 0 (Fin 0.95) (\<lambda>i. i) = Inl e"
    using bootstrap_without_interval_records_fails
            [where run = ?R and g = "\<lambda>i. i" and n = 0 and ests = "[]" and rnd = Fin
               and c = "Fin 0.95"] h rounding_exact
    by blast
  then have z: "isl (run_ci_bootstrap Fin ?R [] 0 (Fin 0.95) (\<lambda>i. i))"
    by auto
  have c: "run_ci_bootstrap Fin ?R [] 100 (Fin 0.95) (\<lambda>i. i) = Inl (KeyError ''thread_logl_min_max'')"
    using bootstrap_without_interval_records_fails
            [where run = ?R and g = "\<lambda>i. i" and n = 100 and ests = "[]" and rnd = Fin
               and c = "Fin 0.95"] h p
    by simp
  show ?thesis
    using h(1) a b rounding_exact z p c by (intro conjI)
qed

section \<open>Properties of \<^verbatim>\<open>run_ci_bootstrap\<close>\<close>



















end
